theory Spec2Isabelle
  imports Complex_Main "HOL-Library.Multiset"
begin

section \<open>JavaScript strings\<close>

text \<open>
  A JavaScript string is a sequence of UTF-16 code units. The model uses \<^typ>\<open>string\<close>
  and reads each \<^typ>\<open>char\<close> as one code unit below \<open>0x100\<close> (ASCII and the Latin-1
  supplement); code units above that, which no literal of the program contains, are outside
  the model.
\<close>

definition isLineTerminator :: "char \<Rightarrow> bool" where
  \<comment> \<open>the characters the regular expression atom \<open>.\<close> refuses: LF and CR\<close>
  "isLineTerminator c = (of_char c \<in> {10, 13 :: nat})"

definition isWhitespace :: "char \<Rightarrow> bool" where
  \<comment> \<open>the class \<open>\s\<close>, also what \<open>trim\<close> strips: TAB, LF, VT, FF, CR, SPACE, NBSP\<close>
  "isWhitespace c = (of_char c \<in> {9, 10, 11, 12, 13, 32, 160 :: nat})"

definition lowerChar :: "char \<Rightarrow> char" where
  "lowerChar c =
     (let n = (of_char c :: nat)
      in if (65 \<le> n \<and> n \<le> 90) \<or> (192 \<le> n \<and> n \<le> 222 \<and> n \<noteq> 215)
         then char_of (n + 32) else c)"

definition upperChar :: "char \<Rightarrow> char" where
  \<comment> \<open>the case folding of a regular expression with flag \<open>i\<close> (and without flag \<open>u\<close>)\<close>
  "upperChar c =
     (let n = (of_char c :: nat)
      in if (97 \<le> n \<and> n \<le> 122) \<or> (224 \<le> n \<and> n \<le> 254 \<and> n \<noteq> 247)
         then char_of (n - 32) else c)"

definition toLowerCase :: "string \<Rightarrow> string" where
  "toLowerCase s = map lowerChar s"

fun startsWith :: "string \<Rightarrow> string \<Rightarrow> bool" where
  "startsWith s [] = True"
| "startsWith [] (k # ks) = False"
| "startsWith (c # cs) (k # ks) = (c = k \<and> startsWith cs ks)"

fun includesStr :: "string \<Rightarrow> string \<Rightarrow> bool" where
  \<comment> \<open>\<open>s.includes(k)\<close>: \<open>k\<close> occurs in \<open>s\<close> as a contiguous substring\<close>
  "includesStr [] k = startsWith [] k"
| "includesStr (c # cs) k = (startsWith (c # cs) k \<or> includesStr cs k)"

definition trim :: "string \<Rightarrow> string" where
  "trim s = rev (dropWhile isWhitespace (rev (dropWhile isWhitespace s)))"

fun join :: "string \<Rightarrow> string list \<Rightarrow> string" where
  "join sep [] = []"
| "join sep [w] = w"
| "join sep (w # v # ws) = w @ sep @ join sep (v # ws)"

definition slice :: "'a list \<Rightarrow> int \<Rightarrow> int \<Rightarrow> 'a list" where
  \<comment> \<open>\<open>xs.slice(start, fin)\<close>; a negative index counts from the end\<close>
  "slice xs start fin =
     (let len = int (length xs);
          k = (if start < 0 then max (len + start) 0 else min start len);
          final = (if fin < 0 then max (len + fin) 0 else min fin len)
      in take (nat (final - k)) (drop (nat k) xs))"

function splitFrom :: "string \<Rightarrow> string \<Rightarrow> string list" where
  \<comment> \<open>the loop of \<open>s.split(/\s+/)\<close>: the first argument is the piece read so far, reversed\<close>
  "splitFrom acc [] = [rev acc]"
| "splitFrom acc (c # cs) =
     (if isWhitespace c then rev acc # splitFrom [] (dropWhile isWhitespace cs)
      else splitFrom (c # acc) cs)"
  by pat_completeness auto
termination
  by (relation "measure (\<lambda>(acc, s). length s)")
     (auto simp: length_dropWhile_le less_Suc_eq_le)

definition splitWhitespace :: "string \<Rightarrow> string list" where
  \<comment> \<open>\<open>s.split(/\s+/)\<close>: the pieces between maximal runs of whitespace; a leading or a
      trailing run leaves an empty piece, and the empty string gives one empty piece\<close>
  "splitWhitespace s = splitFrom [] s"


section \<open>FileService: author extraction and genre inference\<close>

subsection \<open>The two regular expressions and their backtracking matcher\<close>

datatype charclass = Dot | Space | Lit char

datatype quant = One | StarGreedy | PlusGreedy | PlusLazy

record regex =
  atoms :: "(charclass \<times> quant) list"  \<comment> \<open>between \<open>^\<close> and \<open>$\<close>, in order\<close>
  ignoreCase :: bool                     \<comment> \<open>flag \<open>i\<close>\<close>
  groups :: "nat list"                   \<comment> \<open>positions of the parenthesised atoms\<close>

fun classMatches :: "bool \<Rightarrow> charclass \<Rightarrow> char \<Rightarrow> bool" where
  "classMatches i Dot c = (\<not> isLineTerminator c)"
| "classMatches i Space c = isWhitespace c"
| "classMatches i (Lit l) c = (if i then upperChar c = upperChar l else c = l)"

fun lengths :: "quant \<Rightarrow> nat \<Rightarrow> nat list" where
  \<comment> \<open>the numbers of characters a quantified atom tries, in the order it tries them,
      when \<open>n\<close> characters of its class lie ahead\<close>
  "lengths One n = (if 1 \<le> n then [1] else [])"
| "lengths StarGreedy n = rev [0..<Suc n]"
| "lengths PlusGreedy n = rev [1..<Suc n]"
| "lengths PlusLazy n = [1..<Suc n]"

fun firstSome :: "('a \<Rightarrow> 'b option) \<Rightarrow> 'a list \<Rightarrow> 'b option" where
  "firstSome f [] = None"
| "firstSome f (x # xs) = (case f x of Some y \<Rightarrow> Some y | None \<Rightarrow> firstSome f xs)"

primrec matchAtoms :: "(charclass \<times> quant) list \<Rightarrow> bool \<Rightarrow> string \<Rightarrow> string list option" where
  \<comment> \<open>the text each atom consumed in the first successful path of the backtracking search\<close>
  "matchAtoms [] = (\<lambda>i s. if s = [] then Some [] else None)"
| "matchAtoms (a # r) = (\<lambda>i s.
     firstSome (\<lambda>n. map_option ((#) (take n s)) (matchAtoms r i (drop n s)))
       (lengths (snd a) (length (takeWhile (classMatches i (fst a)) s))))"

definition regexMatch :: "regex \<Rightarrow> string \<Rightarrow> string list option" where
  \<comment> \<open>\<open>s.match(re)\<close> for an anchored expression without flag \<open>g\<close>: \<open>None\<close> is \<open>null\<close>,
      and the list holds the match array from index 0 on\<close>
  "regexMatch re s =
     map_option (\<lambda>ts. s # map (\<lambda>g. ts ! g) (groups re)) (matchAtoms (atoms re) (ignoreCase re) s)"

definition hyphenPattern :: regex where
  \<comment> \<open>\<open>/^(.+?)\s*-\s*(.+)$/\<close>, commented \<open>"Author - Title"\<close> in the source\<close>
  "hyphenPattern =
     \<lparr>atoms = [(Dot, PlusLazy), (Space, StarGreedy), (Lit CHR ''-'', One),
               (Space, StarGreedy), (Dot, PlusGreedy)],
      ignoreCase = False, groups = [0, 4]\<rparr>"

definition byPattern :: regex where
  \<comment> \<open>\<open>/^(.+?)\s*by\s*(.+)$/i\<close>, commented \<open>"Title by Author"\<close> in the source\<close>
  "byPattern =
     \<lparr>atoms = [(Dot, PlusLazy), (Space, StarGreedy), (Lit CHR ''b'', One), (Lit CHR ''y'', One),
               (Space, StarGreedy), (Dot, PlusGreedy)],
      ignoreCase = True, groups = [0, 5]\<rparr>"

definition matchResult :: "string list \<Rightarrow> string" where
  \<comment> \<open>\<open>match[2]?.trim() || match[1]?.trim()\<close>: the empty string is falsy\<close>
  "matchResult m = (if trim (m ! 2) \<noteq> [] then trim (m ! 2) else trim (m ! 1))"

fun tryPatterns :: "regex list \<Rightarrow> string \<Rightarrow> string option" where
  \<comment> \<open>the loop \<open>for (const pattern of patterns)\<close>; \<open>None\<close> is \<open>undefined\<close>\<close>
  "tryPatterns [] filename = None"
| "tryPatterns (pattern # rest) filename =
     (case regexMatch pattern filename of
        Some m \<Rightarrow> Some (matchResult m)
      | None \<Rightarrow> tryPatterns rest filename)"

definition extractAuthorFromFilename :: "string \<Rightarrow> string option" where
  "extractAuthorFromFilename filename = tryPatterns [hyphenPattern, byPattern] filename"

subsection \<open>Genre inference\<close>

definition genreKeywords :: "(string \<times> string list) list" where
  "genreKeywords =
    [(''finance'', [''finance'', ''money'', ''investment'', ''wealth'', ''trading'', ''economics'',
                    ''business'']),
     (''business'', [''business'', ''entrepreneur'', ''management'', ''leadership'', ''startup'',
                     ''strategy'']),
     (''technical'', [''programming'', ''code'', ''development'', ''software'', ''computer'',
                      ''tech'', ''algorithm'']),
     (''fiction'', [''novel'', ''story'', ''fiction'', ''tale'', ''adventure'', ''romance'']),
     (''mystery'', [''mystery'', ''detective'', ''crime'', ''murder'', ''thriller'']),
     (''scifi'', [''science fiction'', ''sci-fi'', ''space'', ''future'', ''robot'', ''alien'']),
     (''fantasy'', [''fantasy'', ''magic'', ''wizard'', ''dragon'', ''kingdom'']),
     (''biography'', [''biography'', ''memoir'', ''life of'', ''autobiography'']),
     (''history'', [''history'', ''historical'', ''war'', ''ancient'', ''civilization'']),
     (''selfhelp'', [''self help'', ''self-help'', ''improve'', ''success'', ''motivation'',
                     ''productivity'']),
     (''health'', [''health'', ''fitness'', ''diet'', ''nutrition'', ''wellness'', ''medical'']),
     (''philosophy'', [''philosophy'', ''wisdom'', ''ethics'', ''meaning'', ''existence''])]"

definition detectGenre :: "string \<Rightarrow> string option \<Rightarrow> string list" where
  \<comment> \<open>the second argument is the optional \<open>content\<close>; \<open>None\<close> is \<open>undefined\<close>\<close>
  "detectGenre title content =
     (let titleLower = toLowerCase title;
          contentLower = (case content of None \<Rightarrow> [] | Some c \<Rightarrow> toLowerCase c);
          genres = map fst (filter (\<lambda>(genre, keywords).
                      list_ex (\<lambda>keyword. includesStr titleLower keyword \<or> includesStr contentLower keyword)
                        keywords) genreKeywords)
      in if length genres > 0 then genres else [''general''])"


section \<open>The encoding of string arrays in a text column\<close>

text \<open>
  \<open>JSON.stringify\<close> and \<open>JSON.parse\<close> are built into the language; they are modelled
  from ECMA-262 on the values the store passes to them, arrays of strings.
\<close>

definition hexDigit :: "nat \<Rightarrow> char" where
  "hexDigit n = (if n < 10 then char_of (48 + n) else char_of (87 + n))"

definition escapeChar :: "char \<Rightarrow> string" where
  \<comment> \<open>QuoteJSONString: the two-character escapes (backslash, \<open>CHR 0x5C\<close>, then a letter,
      the quote \<open>CHR 0x22\<close> or a backslash), \<open>\u00xx\<close> for the other control characters,
      every other code unit as it is\<close>
  "escapeChar c =
     (let n = (of_char c :: nat)
      in if n = 8 then [CHR 0x5C, CHR ''b''] else if n = 9 then [CHR 0x5C, CHR ''t'']
         else if n = 10 then [CHR 0x5C, CHR ''n''] else if n = 12 then [CHR 0x5C, CHR ''f'']
         else if n = 13 then [CHR 0x5C, CHR ''r''] else if n = 34 then [CHR 0x5C, CHR 0x22]
         else if n = 92 then [CHR 0x5C, CHR 0x5C]
         else if n < 32 then
           [CHR 0x5C, CHR ''u'', CHR ''0'', CHR ''0'', hexDigit (n div 16), hexDigit (n mod 16)]
         else [c])"

definition quoteJSONString :: "string \<Rightarrow> string" where
  "quoteJSONString s = [CHR 0x22] @ concat (map escapeChar s) @ [CHR 0x22]"

definition JSON_stringify :: "string list \<Rightarrow> string" where
  \<comment> \<open>\<open>JSON.stringify(xs)\<close> for an array of strings, without indentation\<close>
  "JSON_stringify xs = ''['' @ join '','' (map quoteJSONString xs) @ '']''"

definition isJsonWhitespace :: "char \<Rightarrow> bool" where
  "isJsonWhitespace c = (of_char c \<in> {9, 10, 13, 32 :: nat})"

definition hexValue :: "char \<Rightarrow> nat option" where
  "hexValue c =
     (let n = (of_char c :: nat)
      in if 48 \<le> n \<and> n \<le> 57 then Some (n - 48)
         else if 97 \<le> n \<and> n \<le> 102 then Some (n - 87)
         else if 65 \<le> n \<and> n \<le> 70 then Some (n - 55)
         else None)"

definition hex4 :: "char \<Rightarrow> char \<Rightarrow> char \<Rightarrow> char \<Rightarrow> nat option" where
  "hex4 a b c d =
     (case (hexValue a, hexValue b, hexValue c, hexValue d) of
        (Some w, Some x, Some y, Some z) \<Rightarrow> Some (((w * 16 + x) * 16 + y) * 16 + z)
      | _ \<Rightarrow> None)"

definition unescape :: "char \<Rightarrow> char option" where
  \<comment> \<open>the character after a backslash, \<open>u\<close> apart\<close>
  "unescape e =
     (let n = (of_char e :: nat)
      in if n = 34 \<or> n = 92 \<or> n = 47 then Some e
         else if n = 98 then Some (char_of (8::nat))
         else if n = 102 then Some (char_of (12::nat))
         else if n = 110 then Some (char_of (10::nat))
         else if n = 114 then Some (char_of (13::nat))
         else if n = 116 then Some (char_of (9::nat))
         else None)"

datatype parseState = Start | Opened | InString string | AfterElement | AfterComma | Closed

fun parseFrom :: "parseState \<Rightarrow> string list \<Rightarrow> string \<Rightarrow> string list option" where
  \<comment> \<open>one pass over the text; the state says what may come next, \<open>InString\<close> holds the
      characters of the string being read (reversed), the second argument the elements
      read so far (reversed)\<close>
  "parseFrom st acc [] = (if st = Closed then Some (rev acc) else None)"
| "parseFrom Start acc (c # cs) =
     (if isJsonWhitespace c then parseFrom Start acc cs
      else if c = CHR ''['' then parseFrom Opened acc cs else None)"
| "parseFrom Opened acc (c # cs) =
     (if isJsonWhitespace c then parseFrom Opened acc cs
      else if c = CHR '']'' then parseFrom Closed acc cs
      else if c = CHR 0x22 then parseFrom (InString []) acc cs else None)"
| "parseFrom (InString s) acc (c # cs) =
     (if c = CHR 0x22 then parseFrom AfterElement (rev s # acc) cs
      else if c = CHR 0x5C then
        (case cs of
           [] \<Rightarrow> None
         | e # r \<Rightarrow>
             if e = CHR ''u'' then
               (case r of
                  h1 # h2 # h3 # h4 # r' \<Rightarrow>
                    (case hex4 h1 h2 h3 h4 of
                       Some n \<Rightarrow> if n < 256 then parseFrom (InString (char_of n # s)) acc r' else None
                     | None \<Rightarrow> None)
                | _ \<Rightarrow> None)
             else
               (case unescape e of
                  Some x \<Rightarrow> parseFrom (InString (x # s)) acc r
                | None \<Rightarrow> None))
      else if (of_char c :: nat) < 32 then None
      else parseFrom (InString (c # s)) acc cs)"
| "parseFrom AfterElement acc (c # cs) =
     (if isJsonWhitespace c then parseFrom AfterElement acc cs
      else if c = CHR '','' then parseFrom AfterComma acc cs
      else if c = CHR '']'' then parseFrom Closed acc cs else None)"
| "parseFrom AfterComma acc (c # cs) =
     (if isJsonWhitespace c then parseFrom AfterComma acc cs
      else if c = CHR 0x22 then parseFrom (InString []) acc cs else None)"
| "parseFrom Closed acc (c # cs) =
     (if isJsonWhitespace c then parseFrom Closed acc cs else None)"

definition JSON_parse :: "string \<Rightarrow> string list option" where
  \<comment> \<open>\<open>JSON.parse(t)\<close> where \<open>t\<close> is the text of an array of strings; \<open>None\<close> where
      \<open>JSON.parse\<close> throws a SyntaxError or returns a value of another shape (or a string
      with a code unit above \<open>0xFF\<close>)\<close>
  "JSON_parse t = parseFrom Start [] t"


section \<open>DatabaseService\<close>

subsection \<open>Rows, domain values and the store\<close>

text \<open>
  A book has the same fields as a row of table \<open>books\<close> and as a value of interface
  \<open>Book\<close>; the two differ in the types of \<open>genreTags\<close> (a nullable text column, an
  optional array) and of the two flags (integer columns, booleans). Field \<open>id\<close> is
  written \<open>bookId\<close>. Columns of type INTEGER hold integers, and \<open>price\<close>, a REAL
  column that no operation computes with, a rational.
\<close>

record ('tags, 'flag) bookFields =
  bookId :: string
  title :: string
  author :: "string option"
  filePath :: string
  coverImage :: "string option"
  lastPageRead :: int
  totalPages :: int
  categoryId :: "string option"
  genreTags :: 'tags
  fileType :: string
  isCompleted :: 'flag
  isFavorite :: 'flag
  source :: string
  price :: "rat option"
  affiliateUrl :: "string option"
  createdAt :: string
  updatedAt :: string

type_synonym BookRow = "(string option, int) bookFields"

type_synonym Book = "(string list option, bool) bookFields"

text \<open>
  Table \<open>userSubscription\<close> and interface \<open>UserSubscription\<close>, in the same way; the
  fields \<open>id\<close>, \<open>price\<close> and \<open>createdAt\<close> carry the prefix \<open>sub\<close>.
\<close>

record ('features, 'flag) subscriptionFields =
  subId :: string
  tier :: string
  subPrice :: rat
  features :: 'features
  booksPerMonth :: int
  hasAI :: 'flag
  hasNaturalTTS :: 'flag
  expiresAt :: "string option"
  subCreatedAt :: string

type_synonym SubscriptionRow = "(string, int) subscriptionFields"

type_synonym UserSubscription = "(string list, bool) subscriptionFields"

text \<open>
  The store holds the tables \<open>books\<close> and \<open>userSubscription\<close>, each a map from the
  primary key to the row; the tables that the operations below never touch (categories,
  notes, chatHistory, settings) are the extension of the record. The service's field
  \<open>db\<close> is \<open>null\<close> until \<open>init\<close> has run: a service state is an optional store.
\<close>

record database =
  books :: "string \<rightharpoonup> BookRow"
  userSubscription :: "string \<rightharpoonup> SubscriptionRow"

datatype error =
    NotInitialized    \<comment> \<open>\<open>Error('Database not initialized')\<close>\<close>
  | ConstraintFailed  \<comment> \<open>the engine refuses a statement: a primary key twice, NULL in a NOT NULL column\<close>
  | MalformedJSON     \<comment> \<open>\<open>JSON.parse\<close> throws\<close>

definition updateWhereId :: "(string \<rightharpoonup> 'r) \<Rightarrow> string \<Rightarrow> ('r \<Rightarrow> 'r) \<Rightarrow> (string \<rightharpoonup> 'r)" where
  \<comment> \<open>\<open>UPDATE t SET ... WHERE id = ?\<close>: no row with that key, no change\<close>
  "updateWhereId t k f = (case t k of None \<Rightarrow> t | Some r \<Rightarrow> t(k \<mapsto> f r))"

function digitsOf :: "nat \<Rightarrow> string" where
  "digitsOf n = (if n < 10 then [char_of (48 + n)] else digitsOf (n div 10) @ [char_of (48 + n mod 10)])"
  by pat_completeness auto
termination
  by (relation "measure (\<lambda>n. n)") auto

declare digitsOf.simps [simp del]

definition numberToString :: "int \<Rightarrow> string" where
  \<comment> \<open>\<open>n.toString()\<close> of an integer\<close>
  "numberToString n = (if n < 0 then CHR ''-'' # digitsOf (nat (- n)) else digitsOf (nat n))"

subsection \<open>Books\<close>

definition decodeGenreTags :: "string option \<Rightarrow> string list option" where
  \<comment> \<open>\<open>result.genreTags ? JSON.parse(result.genreTags) : []\<close>: NULL and the empty text are
      falsy; the outer \<open>None\<close> is the exception of \<open>JSON.parse\<close>\<close>
  "decodeGenreTags col =
     (case col of None \<Rightarrow> Some [] | Some t \<Rightarrow> if t = [] then Some [] else JSON_parse t)"

definition decodeBook :: "BookRow \<Rightarrow> string list \<Rightarrow> Book" where
  \<comment> \<open>\<open>{...result, genreTags: ..., isCompleted: Boolean(...), isFavorite: Boolean(...)}\<close>\<close>
  "decodeBook result tags =
     \<lparr>bookId = bookId result, title = title result, author = author result,
      filePath = filePath result, coverImage = coverImage result,
      lastPageRead = lastPageRead result, totalPages = totalPages result,
      categoryId = categoryId result, genreTags = Some tags, fileType = fileType result,
      isCompleted = (isCompleted result \<noteq> 0), isFavorite = (isFavorite result \<noteq> 0),
      source = source result, price = price result, affiliateUrl = affiliateUrl result,
      createdAt = createdAt result, updatedAt = updatedAt result\<rparr>"

definition getBookById :: "'a database_scheme option \<Rightarrow> string \<Rightarrow> error + Book option" where
  "getBookById db ident =
     (case db of
        None \<Rightarrow> Inl NotInitialized
      | Some d \<Rightarrow>
          (case books d ident of
             None \<Rightarrow> Inr None
           | Some result \<Rightarrow>
               (case decodeGenreTags (genreTags result) of
                  None \<Rightarrow> Inl MalformedJSON
                | Some tags \<Rightarrow> Inr (Some (decodeBook result tags)))))"

definition encodeBook :: "string \<Rightarrow> Book \<Rightarrow> BookRow" where
  \<comment> \<open>the parameter list of the INSERT statement of \<open>createBook\<close>; \<open>book.genreTags || []\<close>\<close>
  "encodeBook ident book =
     \<lparr>bookId = ident, title = title book, author = author book,
      filePath = filePath book, coverImage = coverImage book,
      lastPageRead = lastPageRead book, totalPages = totalPages book,
      categoryId = categoryId book,
      genreTags = Some (JSON_stringify (case genreTags book of None \<Rightarrow> [] | Some g \<Rightarrow> g)),
      fileType = fileType book,
      isCompleted = (if isCompleted book then 1 else 0),
      isFavorite = (if isFavorite book then 1 else 0),
      source = source book, price = price book, affiliateUrl = affiliateUrl book,
      createdAt = createdAt book, updatedAt = updatedAt book\<rparr>"

definition createBook ::
  "'a database_scheme option \<Rightarrow> nat \<Rightarrow> Book \<Rightarrow> error + (string \<times> 'a database_scheme option)" where
  \<comment> \<open>\<open>now\<close> is the reading of \<open>Date.now()\<close>; the argument has type \<open>Omit<Book, 'id'>\<close>,
      its field \<open>bookId\<close> is not read; a plain INSERT fails on a key already there\<close>
  "createBook db now book =
     (case db of
        None \<Rightarrow> Inl NotInitialized
      | Some d \<Rightarrow>
          (let ident = numberToString (int now)
           in if books d ident \<noteq> None then Inl ConstraintFailed
              else Inr (ident, Some (d\<lparr>books := (books d)(ident \<mapsto> encodeBook ident book)\<rparr>))))"

definition updateBookProgress ::
  "'a database_scheme option \<Rightarrow> string \<Rightarrow> string \<Rightarrow> int \<Rightarrow> error + 'a database_scheme option" where
  \<comment> \<open>\<open>now\<close> is the text of \<open>new Date().toISOString()\<close>, here and below\<close>
  "updateBookProgress db now ident page =
     (case db of
        None \<Rightarrow> Inl NotInitialized
      | Some d \<Rightarrow>
          Inr (Some (d\<lparr>books := updateWhereId (books d) ident
                                  (\<lambda>r. r\<lparr>lastPageRead := page, updatedAt := now\<rparr>)\<rparr>)))"

definition toggleBookFavorite ::
  "'a database_scheme option \<Rightarrow> string \<Rightarrow> string \<Rightarrow> error + 'a database_scheme option" where
  "toggleBookFavorite db now ident =
     (case db of
        None \<Rightarrow> Inl NotInitialized
      | Some d \<Rightarrow>
          (case getBookById db ident of
             Inl e \<Rightarrow> Inl e
           | Inr None \<Rightarrow> Inr db
           | Inr (Some book) \<Rightarrow>
               Inr (Some (d\<lparr>books := updateWhereId (books d) ident
                                       (\<lambda>r. r\<lparr>isFavorite := (if isFavorite book then 0 else 1),
                                               updatedAt := now\<rparr>)\<rparr>))))"

definition markBookCompleted ::
  "'a database_scheme option \<Rightarrow> string \<Rightarrow> string \<Rightarrow> error + 'a database_scheme option" where
  "markBookCompleted db now ident =
     (case db of
        None \<Rightarrow> Inl NotInitialized
      | Some d \<Rightarrow>
          Inr (Some (d\<lparr>books := updateWhereId (books d) ident
                                  (\<lambda>r. r\<lparr>isCompleted := 1, categoryId := Some ''4'',
                                          updatedAt := now\<rparr>)\<rparr>)))"

subsection \<open>The subscription\<close>

definition getUserSubscription :: "'a database_scheme option \<Rightarrow> error + UserSubscription option" where
  "getUserSubscription db =
     (case db of
        None \<Rightarrow> Inl NotInitialized
      | Some d \<Rightarrow>
          (case userSubscription d ''1'' of
             None \<Rightarrow> Inr None
           | Some result \<Rightarrow>
               (case JSON_parse (features result) of
                  None \<Rightarrow> Inl MalformedJSON
                | Some fs \<Rightarrow>
                    Inr (Some \<lparr>subId = subId result, tier = tier result,
                               subPrice = subPrice result, features = fs,
                               booksPerMonth = booksPerMonth result,
                               hasAI = (hasAI result \<noteq> 0),
                               hasNaturalTTS = (hasNaturalTTS result \<noteq> 0),
                               expiresAt = expiresAt result,
                               subCreatedAt = subCreatedAt result\<rparr>))))"

text \<open>
  A value of \<open>Partial<UserSubscription>\<close>: each field is absent, or present with the value
  \<open>undefined\<close> (as \<open>cancelSubscription\<close> passes \<open>expiresAt\<close>), or present with a value.
\<close>

datatype 'a partialField = Absent | Undefined | Value 'a

record subscriptionPartial =
  p_id :: "string partialField"
  p_tier :: "string partialField"
  p_price :: "rat partialField"
  p_features :: "string list partialField"
  p_booksPerMonth :: "int partialField"
  p_hasAI :: "bool partialField"
  p_hasNaturalTTS :: "bool partialField"
  p_expiresAt :: "string partialField"
  p_createdAt :: "string partialField"

definition spread :: "'a option \<Rightarrow> 'a partialField \<Rightarrow> 'a option" where
  \<comment> \<open>one field of \<open>{...current, ...subscription}\<close>; \<open>None\<close> is \<open>undefined\<close> or \<open>null\<close>\<close>
  "spread cur p = (case p of Absent \<Rightarrow> cur | Undefined \<Rightarrow> None | Value v \<Rightarrow> Some v)"

definition updateSubscription ::
  "'a database_scheme option \<Rightarrow> subscriptionPartial \<Rightarrow> error + 'a database_scheme option" where
  \<comment> \<open>the UPDATE statement sets seven columns; \<open>undefined\<close> is bound as NULL, which the NOT
      NULL columns tier, price, features and booksPerMonth refuse\<close>
  "updateSubscription db subscription =
     (case db of
        None \<Rightarrow> Inl NotInitialized
      | Some d \<Rightarrow>
          (case getUserSubscription db of
             Inl e \<Rightarrow> Inl e
           | Inr None \<Rightarrow> Inr db
           | Inr (Some current) \<Rightarrow>
               (case (spread (Some (tier current)) (p_tier subscription),
                      spread (Some (subPrice current)) (p_price subscription),
                      spread (Some (features current)) (p_features subscription),
                      spread (Some (booksPerMonth current)) (p_booksPerMonth subscription)) of
                  (Some t, Some p, Some f, Some b) \<Rightarrow>
                    Inr (Some (d\<lparr>userSubscription := updateWhereId (userSubscription d) ''1''
                      (\<lambda>r. r\<lparr>tier := t, subPrice := p, features := JSON_stringify f,
                              booksPerMonth := b,
                              hasAI := (if spread (Some (hasAI current)) (p_hasAI subscription)
                                           = Some True then 1 else 0),
                              hasNaturalTTS :=
                                (if spread (Some (hasNaturalTTS current)) (p_hasNaturalTTS subscription)
                                    = Some True then 1 else 0),
                              expiresAt := spread (expiresAt current) (p_expiresAt subscription)\<rparr>)\<rparr>))
                | _ \<Rightarrow> Inl ConstraintFailed)))"


section \<open>The reader screen: pages of 400 words\<close>

text \<open>
  The state of the screen that paging reads and writes (the hooks \<open>book\<close>, \<open>content\<close>,
  \<open>currentPage\<close> and \<open>totalPages\<close>, here with the prefix \<open>r\<close>). The file system is a
  function from a path to the text of the file, \<open>None\<close> where reading fails.
\<close>

record readerState =
  r_book :: "Book option"
  r_content :: string
  r_currentPage :: int
  r_totalPages :: int

definition readTextFile :: "(string \<Rightarrow> string option) \<Rightarrow> string \<Rightarrow> string" where
  "readTextFile fs uri =
     (case fs uri of
        Some text \<Rightarrow> text
      | None \<Rightarrow> ''Unable to read file content. This may be a PDF or EPUB file that requires a native reader.'')"

definition wordsPerPage :: int where
  "wordsPerPage = 400"

definition pageCount :: "string \<Rightarrow> int" where
  \<comment> \<open>\<open>Math.ceil(fileContent.split(/\s+/).length / 400)\<close>\<close>
  "pageCount fileContent = \<lceil>(of_nat (length (splitWhitespace fileContent)) :: rat) / 400\<rceil>"

definition loadBook ::
  "'a database_scheme option \<Rightarrow> (string \<Rightarrow> string option) \<Rightarrow> string \<Rightarrow> readerState \<Rightarrow> readerState" where
  \<comment> \<open>a book that is not found, or an exception, leaves the four hooks as they are (the
      screen shows an alert and goes back)\<close>
  "loadBook db fs ident rs =
     (case getBookById db ident of
        Inl e \<Rightarrow> rs
      | Inr None \<Rightarrow> rs
      | Inr (Some foundBook) \<Rightarrow>
          (if fileType foundBook = ''txt'' then
             (let fileContent = readTextFile fs (filePath foundBook)
              in rs\<lparr>r_book := Some foundBook, r_currentPage := lastPageRead foundBook,
                     r_content := fileContent, r_totalPages := pageCount fileContent\<rparr>)
           else
             rs\<lparr>r_book := Some foundBook, r_currentPage := lastPageRead foundBook,
                  r_content := ''This file type requires the full native version of the app for optimal reading. You can still add notes and use AI features with the visible content.'',
                  r_totalPages := 1\<rparr>))"

definition pageWords :: "readerState \<Rightarrow> string list" where
  \<comment> \<open>\<open>words.slice(startIndex, endIndex)\<close> in \<open>getPageContent\<close>\<close>
  "pageWords rs =
     (let words = splitWhitespace (r_content rs);
          startIndex = r_currentPage rs * wordsPerPage;
          endIndex = startIndex + wordsPerPage
      in slice words startIndex endIndex)"

definition getPageContent :: "readerState \<Rightarrow> string" where
  "getPageContent rs = (if r_content rs = [] then [] else join '' '' (pageWords rs))"

definition goToPage ::
  "'a database_scheme option \<Rightarrow> string \<Rightarrow> string \<Rightarrow> readerState \<Rightarrow> int
     \<Rightarrow> error option \<times> 'a database_scheme option \<times> readerState" where
  \<comment> \<open>\<open>now1\<close> and \<open>now2\<close> are the clock's texts at the two store calls. The result is
      the exception that ended the call, if any, with the store and the screen as the call
      left them\<close>
  "goToPage db now1 now2 rs page =
     (if page < 0 \<or> page \<ge> r_totalPages rs then (None, db, rs)
      else
        (let rs' = rs\<lparr>r_currentPage := page\<rparr>
         in case r_book rs of
              None \<Rightarrow> (None, db, rs')
            | Some book \<Rightarrow>
                (case updateBookProgress db now1 (bookId book) page of
                   Inl e \<Rightarrow> (Some e, db, rs')
                 | Inr db1 \<Rightarrow>
                     if page \<ge> r_totalPages rs - 1 \<and> \<not> isCompleted book then
                       (case markBookCompleted db1 now2 (bookId book) of
                          Inl e \<Rightarrow> (Some e, db1, rs')
                        | Inr db2 \<Rightarrow> (None, db2, rs'))
                     else (None, db1, rs'))))"


subsection \<open>Texts made of words\<close>

fun weave :: "string \<Rightarrow> (string \<times> string) list \<Rightarrow> string" where
  \<comment> \<open>a first word, then pairs of a separator and the word after it\<close>
  "weave w [] = w"
| "weave w ((sep, v) # rest) = w @ sep @ weave v rest"

definition isWord :: "string \<Rightarrow> bool" where
  "isWord w = (w \<noteq> [] \<and> list_all (\<lambda>c. \<not> isWhitespace c) w)"

definition isSeparator :: "string \<Rightarrow> bool" where
  "isSeparator sep = (sep \<noteq> [] \<and> list_all isWhitespace sep)"

definition wordsOf :: "string \<Rightarrow> string list" where
  \<comment> \<open>the words of a text, as a reader counts them: the pieces of the split that are not
      empty\<close>
  "wordsOf text = filter (\<lambda>w. w \<noteq> []) (splitWhitespace text)"


section \<open>AIService: the subscription gate\<close>

text \<open>
  The network is a function from the request to what \<open>fetch\<close> and the reading of the
  response give; \<open>askQuestion\<close> returns its response together with the requests it sent.
\<close>

record AIResponse =
  success :: bool
  content :: string
  error :: "string option"

record aiRequest =
  authorization :: string
  systemContent :: string
  userContent :: string

datatype responseBody =
    BodyFailure string            \<comment> \<open>reading the body throws, with this message\<close>
  | FirstChoice "string option"   \<comment> \<open>\<open>data.choices[0]?.message?.content\<close>\<close>

datatype fetchOutcome =
    FetchFailure string                   \<comment> \<open>\<open>fetch\<close> rejects, with this message\<close>
  | Response bool string responseBody     \<comment> \<open>\<open>ok\<close>, \<open>statusText\<close>, the body\<close>

definition errorMessage :: "error \<Rightarrow> string" where
  \<comment> \<open>\<open>error.message\<close> of an exception of the store; the engine's own texts are
      represented by their kind\<close>
  "errorMessage e =
     (case e of
        NotInitialized \<Rightarrow> ''Database not initialized''
      | ConstraintFailed \<Rightarrow> ''constraint failed''
      | MalformedJSON \<Rightarrow> ''JSON Parse error'')"

definition failure :: "string \<Rightarrow> AIResponse" where
  "failure msg = \<lparr>success = False, content = [], error = Some msg\<rparr>"

definition subscriptionRequired :: string where
  "subscriptionRequired = ''AI features require a paid subscription. Upgrade to Basic ($5/month) or higher to access AI explanations and summaries.''"

definition buildRequest :: "string \<Rightarrow> string \<Rightarrow> string \<Rightarrow> string \<Rightarrow> int option \<Rightarrow> aiRequest" where
  \<comment> \<open>\<open>page ? ` (Page ${page})` : ''\<close>: no page and page 0 are falsy;
      \<open>bookContent.substring(0, 2000)\<close>\<close>
  "buildRequest apiKey question bookContent bookTitle page =
     (let pageContext = (case page of
                           None \<Rightarrow> []
                         | Some n \<Rightarrow> if n = 0 then [] else '' (Page '' @ numberToString n @ '')'')
      in \<lparr>authorization = ''Bearer '' @ apiKey,
          systemContent = ''You are a helpful reading assistant for the book '' @ [CHR 0x22] @ bookTitle
            @ [CHR 0x22] @ ''. Provide clear, concise answers about the book content. Focus on explanations, summaries, and insights that help the reader understand better.'',
          userContent = ''Book: '' @ bookTitle @ pageContext @ [CHR 0x0A, CHR 0x0A]
            @ ''Content context: '' @ take 2000 bookContent @ ''...'' @ [CHR 0x0A, CHR 0x0A]
            @ ''Question: '' @ question\<rparr>)"

definition askQuestion ::
  "'a database_scheme option \<Rightarrow> string \<Rightarrow> (aiRequest \<Rightarrow> fetchOutcome)
     \<Rightarrow> string \<Rightarrow> string \<Rightarrow> string \<Rightarrow> int option \<Rightarrow> AIResponse \<times> aiRequest list" where
  \<comment> \<open>\<open>!subscription?.hasAI\<close>: no subscription record, or one without the entitlement\<close>
  "askQuestion db apiKey fetch question bookContent bookTitle page =
     (case getUserSubscription db of
        Inl e \<Rightarrow> (failure (errorMessage e), [])
      | Inr subscription \<Rightarrow>
          if \<not> (case subscription of None \<Rightarrow> False | Some s \<Rightarrow> hasAI s)
          then (failure subscriptionRequired, [])
          else if apiKey = []
          then (failure ''AI service not configured. Please check your API key settings.'', [])
          else
            (let request = buildRequest apiKey question bookContent bookTitle page
             in case fetch request of
                  FetchFailure msg \<Rightarrow> (failure msg, [request])
                | Response ok statusText body \<Rightarrow>
                    if \<not> ok then (failure (''AI request failed: '' @ statusText), [request])
                    else
                      (case body of
                         BodyFailure msg \<Rightarrow> (failure msg, [request])
                       | FirstChoice c \<Rightarrow>
                           (\<lparr>success = True,
                             content = (case c of
                                          None \<Rightarrow> ''No response received''
                                        | Some t \<Rightarrow> if t = [] then ''No response received'' else t),
                             error = None\<rparr>, [request]))))"


section \<open>RecommendationService\<close>

text \<open>
  A recommendation of the catalog; the fields \<open>id\<close>, \<open>title\<close>, \<open>author\<close>, \<open>price\<close>
  and \<open>affiliateUrl\<close> carry the prefix \<open>rec\<close>.
\<close>

record RecommendedBook =
  recId :: string
  recTitle :: string
  recAuthor :: string
  genre :: string
  rating :: rat
  coverUrl :: string
  recPrice :: rat
  recAffiliateUrl :: string
  description :: string
  isAvailableInArchive :: bool

definition pexelsCover :: string where
  "pexelsCover = ''https://images.pexels.com/photos/159711/books-bookstore-book-reading-159711.jpeg?auto=compress&cs=tinysrgb&w=300&h=400&fit=crop''"

definition fin_1 :: RecommendedBook where
  "fin_1 =
     \<lparr>recId = ''fin-1'', recTitle = ''Rich Dad Poor Dad'', recAuthor = ''Robert Kiyosaki'', genre = ''Finance'',
      rating = 47 / 10, coverUrl = pexelsCover, recPrice = 1299 / 100,
      recAffiliateUrl = ''https://amazon.com/dp/1612680194'',
      description = ''A guide to financial literacy and building wealth through smart investments.'',
      isAvailableInArchive = True\<rparr>"

definition fin_2 :: RecommendedBook where
  "fin_2 =
     \<lparr>recId = ''fin-2'', recTitle = ''The Intelligent Investor'', recAuthor = ''Benjamin Graham'', genre = ''Finance'',
      rating = 48 / 10, coverUrl = pexelsCover, recPrice = 1599 / 100,
      recAffiliateUrl = ''https://amazon.com/dp/0060555661'',
      description = ''The definitive book on value investing and market analysis.'',
      isAvailableInArchive = True\<rparr>"

definition bus_1 :: RecommendedBook where
  "bus_1 =
     \<lparr>recId = ''bus-1'', recTitle = ''Atomic Habits'', recAuthor = ''James Clear'', genre = ''Business'',
      rating = 49 / 10, coverUrl = pexelsCover, recPrice = 1399 / 100,
      recAffiliateUrl = ''https://amazon.com/dp/0735211299'',
      description = ''An easy way to build good habits and break bad ones.'',
      isAvailableInArchive = True\<rparr>"

definition bus_2 :: RecommendedBook where
  "bus_2 =
     \<lparr>recId = ''bus-2'', recTitle = ''The Lean Startup'', recAuthor = ''Eric Ries'', genre = ''Business'',
      rating = 45 / 10, coverUrl = pexelsCover, recPrice = 1499 / 100,
      recAffiliateUrl = ''https://amazon.com/dp/0307887898'',
      description = ''How constant innovation creates radically successful businesses.'',
      isAvailableInArchive = False\<rparr>"

definition fic_1 :: RecommendedBook where
  "fic_1 =
     \<lparr>recId = ''fic-1'', recTitle = ''The Seven Husbands of Evelyn Hugo'', recAuthor = ''Taylor Jenkins Reid'', genre = ''Fiction'',
      rating = 48 / 10, coverUrl = pexelsCover, recPrice = 1199 / 100,
      recAffiliateUrl = ''https://amazon.com/dp/1501161938'',
      description = ''A captivating novel about a reclusive Hollywood icon.'',
      isAvailableInArchive = True\<rparr>"

definition tech_1 :: RecommendedBook where
  "tech_1 =
     \<lparr>recId = ''tech-1'', recTitle = ''Clean Code'', recAuthor = ''Robert C. Martin'', genre = ''Technical'',
      rating = 47 / 10, coverUrl = pexelsCover, recPrice = 2499 / 100,
      recAffiliateUrl = ''https://amazon.com/dp/0132350884'',
      description = ''A handbook of agile software craftsmanship.'',
      isAvailableInArchive = True\<rparr>"

definition bookDatabase :: "(string \<times> RecommendedBook list) list" where
  \<comment> \<open>the catalog, its entries named by their ids\<close>
  "bookDatabase =
    [(''finance'', [fin_1, fin_2]),
     (''business'', [bus_1, bus_2]),
     (''fiction'', [fic_1]),
     (''technical'', [tech_1])]"

text \<open>
  The tally \<open>genreCount\<close> and the catalog are plain objects, so reading a key that
  \<open>Object.prototype\<close> defines finds the inherited value. In the tally that value is
  truthy, and adding 1 to it gives a text: the value's own text followed by \<open>1\<close>, and by
  one more \<open>1\<close> at each later occurrence of the genre. Assigning to \<open>__proto__\<close> a value
  that is no object does nothing, so that key never becomes a property of the tally. In the
  catalog the inherited value cannot be spread.
\<close>

definition objectPrototypeKeys :: "string list" where
  "objectPrototypeKeys =
     [''constructor'', ''__defineGetter__'', ''__defineSetter__'', ''hasOwnProperty'',
      ''__lookupGetter__'', ''__lookupSetter__'', ''isPrototypeOf'', ''propertyIsEnumerable'',
      ''toString'', ''valueOf'', ''__proto__'', ''toLocaleString'']"

datatype tallyValue =
    Count nat           \<comment> \<open>a number\<close>
  | InheritedText nat   \<comment> \<open>the text of an inherited value, followed by that many \<open>1\<close>\<close>

fun addOne :: "tallyValue \<Rightarrow> tallyValue" where
  \<comment> \<open>\<open>(v || 0) + 1\<close> for the value of an own property: a count from 1 on and a non-empty
      text are truthy\<close>
  "addOne (Count n) = Count (n + 1)"
| "addOne (InheritedText n) = InheritedText (n + 1)"

fun increment :: "(string \<times> tallyValue) list \<Rightarrow> string \<Rightarrow> (string \<times> tallyValue) list" where
  \<comment> \<open>\<open>genreCount[genre] = (genreCount[genre] || 0) + 1\<close>; the list holds the object's own
      properties in the order of their creation\<close>
  "increment [] g =
     (if g = ''__proto__'' then []
      else if g \<in> set objectPrototypeKeys then [(g, InheritedText 1)]
      else [(g, Count 1)])"
| "increment ((k, v) # rest) g =
     (if k = g then (k, addOne v) # rest else (k, v) # increment rest g)"

definition tagsOf :: "Book \<Rightarrow> string list" where
  \<comment> \<open>\<open>book.genreTags && Array.isArray(book.genreTags)\<close>: a book without tags adds nothing\<close>
  "tagsOf book = (case genreTags book of None \<Rightarrow> [] | Some tags \<Rightarrow> tags)"

definition analyzeGenrePreferences :: "Book list \<Rightarrow> (string \<times> tallyValue) list" where
  "analyzeGenrePreferences bs =
     foldl (\<lambda>genreCount book. foldl increment genreCount (tagsOf book)) [] bs"

fun numericTally :: "(string \<times> tallyValue) list \<Rightarrow> (string \<times> nat) list option" where
  \<comment> \<open>the tally as a value of \<open>Record<string, number>\<close>, the type that
      \<open>generateRecommendations\<close> declares for its argument; \<open>None\<close> when a value is a text:
      then the comparator \<open>b - a\<close> gives NaN, and the order that \<open>sort\<close> returns is left to
      the implementation\<close>
  "numericTally [] = Some []"
| "numericTally ((k, Count n) # rest) = map_option ((#) (k, n)) (numericTally rest)"
| "numericTally ((k, InheritedText n) # rest) = None"

definition decimalValue :: "string \<Rightarrow> nat" where
  "decimalValue s = foldl (\<lambda>a c. a * 10 + (of_char c - 48)) 0 s"

definition arrayIndex :: "string \<Rightarrow> nat option" where
  \<comment> \<open>a property key is an array index when it is the decimal text of an integer below
      \<open>2^32 - 1\<close>\<close>
  "arrayIndex k =
     (let n = decimalValue k
      in if k \<noteq> [] \<and> digitsOf n = k \<and> n < 4294967295 then Some n else None)"

definition Object_entries :: "(string \<times> 'v) list \<Rightarrow> (string \<times> 'v) list" where
  \<comment> \<open>\<open>Object.entries(o)\<close>: the array indices in ascending order, then the other keys in
      the order of their creation\<close>
  "Object_entries props =
     sort_key (\<lambda>(k, v). case arrayIndex k of Some n \<Rightarrow> n | None \<Rightarrow> 0)
       (filter (\<lambda>(k, v). arrayIndex k \<noteq> None) props)
     @ filter (\<lambda>(k, v). arrayIndex k = None) props"

definition sortedEntries :: "(string \<times> nat) list \<Rightarrow> (string \<times> nat) list" where
  \<comment> \<open>\<open>Object.entries(genreFrequency).sort(([,a], [,b]) => b - a)\<close>; \<open>sort\<close> is stable\<close>
  "sortedEntries genreFrequency = sort_key (\<lambda>(g, c). - int c) (Object_entries genreFrequency)"

definition topGenres :: "(string \<times> nat) list \<Rightarrow> string list" where
  \<comment> \<open>\<open>.slice(0, 3).map(([genre]) => genre)\<close>\<close>
  "topGenres genreFrequency = map fst (take 3 (sortedEntries genreFrequency))"

definition genreBooks :: "string \<Rightarrow> RecommendedBook list" where
  \<comment> \<open>\<open>bookDatabase[genre] || []\<close>\<close>
  "genreBooks g = (case map_of bookDatabase g of None \<Rightarrow> [] | Some bs \<Rightarrow> bs)"

definition recommendFor :: "string list \<Rightarrow> RecommendedBook list option" where
  \<comment> \<open>the rest of \<open>generateRecommendations\<close>, from the top genres on; \<open>None\<close>: the
      TypeError of spreading an inherited value\<close>
  "recommendFor tops =
     (if list_ex (\<lambda>g. g \<in> set objectPrototypeKeys) tops then None
      else
        (let recommendations = concat (map genreBooks tops);
             allBooks = concat (map snd bookDatabase);
             remaining = take (6 - length recommendations)
                           (filter (\<lambda>book. \<not> list_ex (\<lambda>r. recId r = recId book) recommendations)
                              allBooks);
             recommendations' = (if length recommendations < 6 then recommendations @ remaining
                                 else recommendations)
         in Some (take 8 recommendations')))"

definition generateRecommendations :: "(string \<times> nat) list \<Rightarrow> RecommendedBook list option" where
  "generateRecommendations genreFrequency = recommendFor (topGenres genreFrequency)"


section \<open>Seeding and example values\<close>

definition defaultSubscriptionRow :: "string \<Rightarrow> SubscriptionRow" where
  \<comment> \<open>the free tier that \<open>createDefaultData\<close> inserts; \<open>now\<close> is the clock's text\<close>
  "defaultSubscriptionRow now =
     \<lparr>subId = ''1'', tier = ''free'', subPrice = 0,
      features = JSON_stringify [''Basic reading'', ''Notes'', ''Basic TTS''],
      booksPerMonth = 0, hasAI = 0, hasNaturalTTS = 0, expiresAt = None, subCreatedAt = now\<rparr>"

definition createDefaultData :: "string \<Rightarrow> 'a database_scheme \<Rightarrow> 'a database_scheme" where
  \<comment> \<open>\<open>INSERT OR IGNORE\<close>: a row already there stays\<close>
  "createDefaultData now d =
     (if userSubscription d ''1'' = None
      then d\<lparr>userSubscription := (userSubscription d)(''1'' \<mapsto> defaultSubscriptionRow now)\<rparr>
      else d)"

definition freshStore :: database where
  \<comment> \<open>the store after \<open>init\<close> on a new installation, at an example time\<close>
  "freshStore = createDefaultData ''2026-01-01T00:00:00.000Z''
                  \<lparr>books = Map.empty, userSubscription = Map.empty\<rparr>"

definition exampleBook :: Book where
  "exampleBook =
     \<lparr>bookId = [], title = ''Money Habits'', author = Some ''A. Writer'',
      filePath = ''file:///documents/books/Money Habits.txt'', coverImage = None,
      lastPageRead = 0, totalPages = 0, categoryId = Some ''2'',
      genreTags = Some [''finance'', ''self-help''], fileType = ''txt'',
      isCompleted = False, isFavorite = False, source = ''local'', price = None,
      affiliateUrl = None, createdAt = ''2026-01-02T10:00:00.000Z'',
      updatedAt = ''2026-01-02T10:00:00.000Z''\<rparr>"

definition exampleStore :: database where
  \<comment> \<open>the fresh store with the example book, as \<open>createBook\<close> writes it at time 1767348000000\<close>
  "exampleStore =
     freshStore\<lparr>books := [''1767348000000'' \<mapsto> encodeBook ''1767348000000'' exampleBook]\<rparr>"

definition initialReaderState :: readerState where
  \<comment> \<open>the initial values of the four hooks\<close>
  "initialReaderState = \<lparr>r_book = None, r_content = [], r_currentPage = 0, r_totalPages = 0\<rparr>"

definition thousandWords :: string where
  \<comment> \<open>1000 words, each followed by a space and a line feed but the last\<close>
  "thousandWords = weave ''word'' (replicate 999 ([CHR '' '', CHR 0x0A], ''word''))"

definition taggedBook :: "string list \<Rightarrow> Book" where
  "taggedBook tags = exampleBook\<lparr>genreTags := Some tags\<rparr>"

definition financeLibrary :: "Book list" where
  \<comment> \<open>six books: one tagged fiction, then five tagged finance\<close>
  "financeLibrary = taggedBook [''fiction''] # replicate 5 (taggedBook [''finance''])"

definition basicUpgrade :: subscriptionPartial where
  \<comment> \<open>the partial record that \<open>upgradeSubscription('basic')\<close> passes, at an example time\<close>
  "basicUpgrade =
     \<lparr>p_id = Absent, p_tier = Value ''basic'', p_price = Value 5,
      p_features = Value [''Everything in Free'', ''AI explanations'', ''1 free book/month'',
                          ''Natural TTS''],
      p_booksPerMonth = Value 1, p_hasAI = Value True, p_hasNaturalTTS = Value True,
      p_expiresAt = Value ''2026-01-31T00:00:00.000Z'', p_createdAt = Absent\<rparr>"

definition createdAtOnly :: subscriptionPartial where
  "createdAtOnly =
     \<lparr>p_id = Absent, p_tier = Absent, p_price = Absent, p_features = Absent,
      p_booksPerMonth = Absent, p_hasAI = Absent, p_hasNaturalTTS = Absent,
      p_expiresAt = Absent, p_createdAt = Value ''2030-06-01T00:00:00.000Z''\<rparr>"


definition tierUndefined :: subscriptionPartial where
  "tierUndefined =
     \<lparr>p_id = Absent, p_tier = Undefined, p_price = Absent, p_features = Absent,
      p_booksPerMonth = Absent, p_hasAI = Value True, p_hasNaturalTTS = Absent,
      p_expiresAt = Absent, p_createdAt = Absent\<rparr>"


section \<open>Properties of author extraction and genre inference\<close>

text \<open>
  Claim C1. At the claim's two filenames the function does not return the author alone.
  For \<open>"Tony Robbins - Awaken the Giant Within.txt"\<close> the hyphen pattern matches with
  \<open>"Tony Robbins"\<close> in group 1, and the function returns group 2, the title, although the
  source comments the pattern as \<open>"Author - Title"\<close>. For
  \<open>"Atomic Habits by James Clear.txt"\<close> it returns group 2 of the 'by' pattern, which
  runs to the end of the name and so keeps the extension.
\<close>

theorem extractAuthor_examples:
  "regexMatch hyphenPattern ''Tony Robbins - Awaken the Giant Within.txt''
     = Some [''Tony Robbins - Awaken the Giant Within.txt'', ''Tony Robbins'',
             ''Awaken the Giant Within.txt''] \<and>
   extractAuthorFromFilename ''Tony Robbins - Awaken the Giant Within.txt''
     = Some ''Awaken the Giant Within.txt'' \<and>
   extractAuthorFromFilename ''Atomic Habits by James Clear.txt'' = Some ''James Clear.txt''"
  by code_simp

text \<open>
  What does hold of the claim: the hyphen pattern is tried first, and where it matches the
  'by' pattern plays no part; where it does not match, the 'by' pattern alone decides; a
  filename that matches neither pattern gives no author.
\<close>

lemma extractAuthor_priority:
  "(regexMatch hyphenPattern filename \<noteq> None \<longrightarrow>
      extractAuthorFromFilename filename = tryPatterns [hyphenPattern] filename) \<and>
   (regexMatch hyphenPattern filename = None \<longrightarrow>
      extractAuthorFromFilename filename = tryPatterns [byPattern] filename) \<and>
   (regexMatch hyphenPattern filename = None \<and> regexMatch byPattern filename = None \<longrightarrow>
      extractAuthorFromFilename filename = None)"
  by (auto simp: extractAuthorFromFilename_def split: option.splits)

lemma extractAuthor_priority_examples:
  "regexMatch byPattern ''Stand by Me - Ben E King'' \<noteq> None \<and>
   extractAuthorFromFilename ''Stand by Me - Ben E King''
     = tryPatterns [hyphenPattern] ''Stand by Me - Ben E King'' \<and>
   extractAuthorFromFilename ''Atomic Habits by James Clear.txt''
     = tryPatterns [byPattern] ''Atomic Habits by James Clear.txt'' \<and>
   extractAuthorFromFilename ''notes.txt'' = None"
proof -
  have h0: "regexMatch byPattern ''Stand by Me - Ben E King'' \<noteq> None"
    by code_simp
  have h1: "regexMatch hyphenPattern ''Stand by Me - Ben E King'' \<noteq> None"
    by code_simp
  have h2: "regexMatch hyphenPattern ''Atomic Habits by James Clear.txt'' = None"
    by code_simp
  have h3: "regexMatch hyphenPattern ''notes.txt'' = None \<and> regexMatch byPattern ''notes.txt'' = None"
    by code_simp
  from h0 extractAuthor_priority [of "''Stand by Me - Ben E King''"] h1
       extractAuthor_priority [of "''Atomic Habits by James Clear.txt''"] h2
       extractAuthor_priority [of "''notes.txt''"] h3
  show ?thesis by blast
qed

lemma startsWith_iff: "startsWith s k \<longleftrightarrow> (\<exists>q. s = k @ q)"
  by (induction s k rule: startsWith.induct) auto

lemma includesStr_iff: "includesStr s k \<longleftrightarrow> (\<exists>p q. s = p @ k @ q)"
proof (induction s)
  case Nil
  then show ?case by (simp add: startsWith_iff)
next
  case (Cons c cs)
  show ?case
  proof
    assume "includesStr (c # cs) k"
    then consider "startsWith (c # cs) k" | "includesStr cs k" by auto
    then show "\<exists>p q. c # cs = p @ k @ q"
    proof cases
      case 1
      then obtain q where "c # cs = k @ q" by (auto simp: startsWith_iff)
      then have "c # cs = [] @ k @ q" by simp
      then show ?thesis by blast
    next
      case 2
      with Cons.IH obtain p q where "cs = p @ k @ q" by blast
      then have "c # cs = (c # p) @ k @ q" by simp
      then show ?thesis by blast
    qed
  next
    assume "\<exists>p q. c # cs = p @ k @ q"
    then obtain p q where pq: "c # cs = p @ k @ q" by blast
    show "includesStr (c # cs) k"
    proof (cases p)
      case Nil
      with pq have "startsWith (c # cs) k" by (auto simp: startsWith_iff)
      then show ?thesis by simp
    next
      case (Cons x p')
      with pq have "cs = p' @ k @ q" by simp
      with Cons.IH have "includesStr cs k" by blast
      then show ?thesis by simp
    qed
  qed
qed

lemma filter_genres_empty:
  "\<forall>kw \<in> set (concat (map snd tbl)). \<not> P kw \<Longrightarrow>
   filter (\<lambda>(genre, keywords). list_ex P keywords) tbl = []"
  by (induction tbl) (auto simp: list_ex_iff)

text \<open>
  Claim C2, as the source has it. No keyword of the table occurs in
  \<open>"the intelligent investor"\<close> (the table has \<open>"investment"\<close>, not \<open>"invest"\<close>), so
  the result for this title does not contain \<open>"finance"\<close>.
\<close>

theorem detectGenre_investor_counterexample:
  "''finance'' \<notin> set (detectGenre ''The Intelligent Investor'' None)"
  by code_simp

text \<open>
  Claim C2, amended: for the title \<open>"The Intelligent Investor"\<close> without content the result
  is \<open>["general"]\<close>; and for every title and content in which, after lower-casing, no
  keyword of the table occurs, the result is exactly \<open>["general"]\<close>.
\<close>

theorem detectGenre_general:
  "detectGenre ''The Intelligent Investor'' None = [''general''] \<and>
   ((\<forall>keyword \<in> set (concat (map snd genreKeywords)).
        \<not> includesStr (toLowerCase ttl) keyword \<and>
        \<not> includesStr (case txt of None \<Rightarrow> [] | Some c \<Rightarrow> toLowerCase c) keyword)
    \<longrightarrow> detectGenre ttl txt = [''general''])"
proof
  show "detectGenre ''The Intelligent Investor'' None = [''general'']"
    by code_simp
next
  show "(\<forall>keyword \<in> set (concat (map snd genreKeywords)).
        \<not> includesStr (toLowerCase ttl) keyword \<and>
        \<not> includesStr (case txt of None \<Rightarrow> [] | Some c \<Rightarrow> toLowerCase c) keyword)
    \<longrightarrow> detectGenre ttl txt = [''general'']"
  proof
    assume h: "\<forall>keyword \<in> set (concat (map snd genreKeywords)).
        \<not> includesStr (toLowerCase ttl) keyword \<and>
        \<not> includesStr (case txt of None \<Rightarrow> [] | Some c \<Rightarrow> toLowerCase c) keyword"
    have "filter (\<lambda>(genre, keywords). list_ex (\<lambda>keyword. includesStr (toLowerCase ttl) keyword \<or>
             includesStr (case txt of None \<Rightarrow> [] | Some c \<Rightarrow> toLowerCase c) keyword) keywords)
            genreKeywords = []"
      by (rule filter_genres_empty) (use h in blast)
    then show "detectGenre ttl txt = [''general'']"
      by (simp add: detectGenre_def Let_def)
  qed
qed

theorem detectGenre_general_witness:
  "detectGenre ''Moby Dick'' (Some ''Call me Ishmael.'') = [''general'']"
proof -
  have h: "\<forall>keyword \<in> set (concat (map snd genreKeywords)).
        \<not> includesStr (toLowerCase ''Moby Dick'') keyword \<and>
        \<not> includesStr (case Some ''Call me Ishmael.'' of None \<Rightarrow> [] | Some c \<Rightarrow> toLowerCase c) keyword"
    by code_simp
  from detectGenre_general [of "''Moby Dick''" "Some ''Call me Ishmael.''"] h show ?thesis
    by blast
qed


section \<open>The encoding of genre tags round-trips\<close>

lemma hexValue_hexDigit: "k < 16 \<Longrightarrow> hexValue (hexDigit k) = Some k"
  by (simp add: hexValue_def hexDigit_def Let_def)

lemma hex4_control:
  assumes "n < 256"
  shows "hex4 CHR ''0'' CHR ''0'' (hexDigit (n div 16)) (hexDigit (n mod 16)) = Some n"
proof -
  have "hexValue CHR ''0'' = Some 0" by (simp add: hexValue_def)
  moreover have "hexValue (hexDigit (n div 16)) = Some (n div 16)"
    using assms by (intro hexValue_hexDigit) simp
  moreover have "hexValue (hexDigit (n mod 16)) = Some (n mod 16)"
    by (intro hexValue_hexDigit) simp
  ultimately show ?thesis by (simp add: hex4_def)
qed

lemma parse_two_char_escape:
  assumes "unescape e = Some c" and "e \<noteq> CHR ''u''"
  shows "parseFrom (InString s) acc (CHR 0x5C # e # rest) = parseFrom (InString (c # s)) acc rest"
  using assms by simp

lemma parse_unicode_escape:
  assumes "n < 256"
  shows "parseFrom (InString s) acc
           (CHR 0x5C # CHR ''u'' # CHR ''0'' # CHR ''0'' # hexDigit (n div 16) # hexDigit (n mod 16) # rest)
         = parseFrom (InString (char_of n # s)) acc rest"
  using assms by (simp add: hex4_control)

lemma parse_plain_char:
  assumes "32 \<le> (of_char c :: nat)" and "of_char c \<noteq> (34 :: nat)" and "of_char c \<noteq> (92 :: nat)"
  shows "parseFrom (InString s) acc (c # rest) = parseFrom (InString (c # s)) acc rest"
proof -
  have "c \<noteq> CHR 0x22" "c \<noteq> CHR 0x5C" using assms by auto
  then show ?thesis using assms by simp
qed

lemma parse_escapeChar:
  "parseFrom (InString s) acc (escapeChar c @ rest) = parseFrom (InString (c # s)) acc rest"
proof -
  define n where "n = (of_char c :: nat)"
  have c: "char_of n = c" by (simp add: n_def)
  have n256: "n < 256"
    unfolding n_def by (metis of_char_mod_256 mod_less_divisor zero_less_numeral)
  consider "n = 8" | "n = 9" | "n = 10" | "n = 12" | "n = 13" | "n = 34" | "n = 92"
    | "n < 32" "n \<notin> {8, 9, 10, 12, 13}" | "32 \<le> n" "n \<noteq> 34" "n \<noteq> 92"
    by fastforce
  then show ?thesis
  proof cases
    case 1
    have "escapeChar c = [CHR 0x5C, CHR ''b'']" using 1 by (simp add: escapeChar_def n_def)
    moreover have "unescape CHR ''b'' = Some c" using 1 c by (simp add: unescape_def)
    ultimately show ?thesis by (simp add: parse_two_char_escape del: parseFrom.simps)
  next
    case 2
    have "escapeChar c = [CHR 0x5C, CHR ''t'']" using 2 by (simp add: escapeChar_def n_def)
    moreover have "unescape CHR ''t'' = Some c" using 2 c by (simp add: unescape_def)
    ultimately show ?thesis by (simp add: parse_two_char_escape del: parseFrom.simps)
  next
    case 3
    have "escapeChar c = [CHR 0x5C, CHR ''n'']" using 3 by (simp add: escapeChar_def n_def)
    moreover have "unescape CHR ''n'' = Some c" using 3 c by (simp add: unescape_def)
    ultimately show ?thesis by (simp add: parse_two_char_escape del: parseFrom.simps)
  next
    case 4
    have "escapeChar c = [CHR 0x5C, CHR ''f'']" using 4 by (simp add: escapeChar_def n_def)
    moreover have "unescape CHR ''f'' = Some c" using 4 c by (simp add: unescape_def)
    ultimately show ?thesis by (simp add: parse_two_char_escape del: parseFrom.simps)
  next
    case 5
    have "escapeChar c = [CHR 0x5C, CHR ''r'']" using 5 by (simp add: escapeChar_def n_def)
    moreover have "unescape CHR ''r'' = Some c" using 5 c by (simp add: unescape_def)
    ultimately show ?thesis by (simp add: parse_two_char_escape del: parseFrom.simps)
  next
    case 6
    have "escapeChar c = [CHR 0x5C, CHR 0x22]" using 6 by (simp add: escapeChar_def n_def)
    moreover have "c = CHR 0x22" using 6 by (intro of_char_eqI [where 'a = nat]) (simp add: n_def)
    then have "unescape (CHR 0x22) = Some c" by (simp add: unescape_def)
    ultimately show ?thesis by (simp add: parse_two_char_escape del: parseFrom.simps)
  next
    case 7
    have "escapeChar c = [CHR 0x5C, CHR 0x5C]" using 7 by (simp add: escapeChar_def n_def)
    moreover have "c = CHR 0x5C" using 7 by (intro of_char_eqI [where 'a = nat]) (simp add: n_def)
    then have "unescape (CHR 0x5C) = Some c" by (simp add: unescape_def)
    ultimately show ?thesis by (simp add: parse_two_char_escape del: parseFrom.simps)
  next
    case 8
    then have "escapeChar c =
        [CHR 0x5C, CHR ''u'', CHR ''0'', CHR ''0'', hexDigit (n div 16), hexDigit (n mod 16)]"
      by (simp add: escapeChar_def n_def [symmetric] Let_def)
    then show ?thesis
      using parse_unicode_escape [OF n256, of s acc rest] c by (simp del: parseFrom.simps)
  next
    case 9
    then have "escapeChar c = [c]"
      by (simp add: escapeChar_def n_def [symmetric] Let_def)
    then show ?thesis
      using parse_plain_char [of c s acc rest] 9 by (simp add: n_def del: parseFrom.simps)
  qed
qed

lemma parse_string_body:
  "parseFrom (InString s) acc (concat (map escapeChar t) @ rest)
     = parseFrom (InString (rev t @ s)) acc rest"
  by (induction t arbitrary: s) (simp_all add: parse_escapeChar del: parseFrom.simps)

lemma parse_quoted:
  "parseFrom (InString []) acc (tl (quoteJSONString t) @ rest) = parseFrom AfterElement (t # acc) rest"
  using parse_string_body [of "[]" acc t "CHR 0x22 # rest"]
  by (simp add: quoteJSONString_def)

lemma quoteJSONString_Cons: "quoteJSONString t = CHR 0x22 # tl (quoteJSONString t)"
  by (simp add: quoteJSONString_def)

lemma parse_elements:
  "parseFrom AfterComma acc (join '','' (map quoteJSONString (x # xs)) @ '']'')
     = Some (rev acc @ x # xs)"
proof (induction xs arbitrary: x acc)
  case Nil
  have "parseFrom AfterComma acc (quoteJSONString x @ '']'')
          = parseFrom (InString []) acc (tl (quoteJSONString x) @ '']'')"
    by (subst quoteJSONString_Cons) (simp add: isJsonWhitespace_def)
  then show ?case by (simp add: parse_quoted isJsonWhitespace_def)
next
  case (Cons y ys)
  have "parseFrom AfterComma acc (quoteJSONString x @ '','' @ join '','' (map quoteJSONString (y # ys)) @ '']'')
          = parseFrom (InString []) acc
              (tl (quoteJSONString x) @ '','' @ join '','' (map quoteJSONString (y # ys)) @ '']'')"
    by (subst quoteJSONString_Cons) (simp add: isJsonWhitespace_def)
  also have "\<dots> = parseFrom AfterComma (x # acc) (join '','' (map quoteJSONString (y # ys)) @ '']'')"
    by (simp add: parse_quoted isJsonWhitespace_def)
  also have "\<dots> = Some (rev (x # acc) @ y # ys)" by (rule Cons.IH)
  finally show ?case by simp
qed

lemma join_quoted_head:
  "\<exists>r. join '','' (map quoteJSONString (x # ys)) = CHR 0x22 # r"
  by (cases ys) (simp_all add: quoteJSONString_def)

lemma JSON_roundtrip: "JSON_parse (JSON_stringify xs) = Some xs"
proof (cases xs)
  case Nil
  then show ?thesis by (simp add: JSON_parse_def JSON_stringify_def isJsonWhitespace_def)
next
  case (Cons x ys)
  obtain r where r: "join '','' (map quoteJSONString (x # ys)) = CHR 0x22 # r"
    using join_quoted_head by blast
  have "parseFrom Opened [] (join '','' (map quoteJSONString (x # ys)) @ '']'')
          = parseFrom AfterComma [] (join '','' (map quoteJSONString (x # ys)) @ '']'')"
    unfolding r by (simp add: isJsonWhitespace_def)
  then show ?thesis
    using parse_elements [of "[]" x ys]
    by (simp add: Cons JSON_parse_def JSON_stringify_def isJsonWhitespace_def del: join.simps)
qed

lemma JSON_stringify_nonempty: "JSON_stringify xs \<noteq> []"
  by (simp add: JSON_stringify_def)

lemma decode_encode_tags: "decodeGenreTags (Some (JSON_stringify g)) = Some g"
  by (simp add: decodeGenreTags_def JSON_stringify_nonempty JSON_roundtrip)

lemma decodeBook_encodeBook:
  "decodeBook (encodeBook ident book) tags = book\<lparr>bookId := ident, genreTags := Some tags\<rparr>"
  by (simp add: decodeBook_def encodeBook_def)

lemma getBookById_encodeBook:
  assumes "books d ident = Some (encodeBook ident book)"
  shows "getBookById (Some d) ident = Inr (Some (book\<lparr>bookId := ident, genreTags := Some (tagsOf book)\<rparr>))"
proof -
  have "genreTags (encodeBook ident book) = Some (JSON_stringify (tagsOf book))"
    by (simp add: encodeBook_def tagsOf_def)
  then have "getBookById (Some d) ident = Inr (Some (decodeBook (encodeBook ident book) (tagsOf book)))"
    using assms by (simp add: getBookById_def decode_encode_tags)
  then show ?thesis by (simp only: decodeBook_encodeBook)
qed

lemma getBookById_Some:
  "getBookById db ident = Inr (Some b) \<longleftrightarrow>
     (\<exists>d row tags. db = Some d \<and> books d ident = Some row \<and>
        decodeGenreTags (genreTags row) = Some tags \<and> b = decodeBook row tags)"
  by (auto simp: getBookById_def split: option.splits)

text \<open>
  Claim C3. The encoding of \<open>genreTags\<close> round-trips: decoding the text that encodes
  \<open>g\<close> gives \<open>g\<close>, for every list of strings; a book that \<open>createBook\<close> stores (on
  an initialised store, under a key not yet taken) is read back by \<open>getBookById\<close> with the
  tags it was given, the empty list if it was given none, and every other field as given;
  and a row whose \<open>genreTags\<close> column is NULL is read with the empty list.
\<close>

theorem genreTags_roundtrip:
  "decodeGenreTags (Some (JSON_stringify g)) = Some g \<and>
   (db = Some d \<and> books d (numberToString (int now)) = None \<longrightarrow>
      (\<exists>db'. createBook db now book = Inr (numberToString (int now), db') \<and>
             getBookById db' (numberToString (int now)) =
               Inr (Some (book\<lparr>bookId := numberToString (int now),
                               genreTags := Some (case genreTags book of None \<Rightarrow> [] | Some g \<Rightarrow> g)\<rparr>)))) \<and>
   (db = Some d \<and> books d ident = Some row \<and> genreTags row = None \<longrightarrow>
      (\<exists>b. getBookById db ident = Inr (Some b) \<and> genreTags b = Some []))"
proof (intro conjI impI)
  show "decodeGenreTags (Some (JSON_stringify g)) = Some g"
    by (rule decode_encode_tags)
next
  assume h: "db = Some d \<and> books d (numberToString (int now)) = None"
  let ?k = "numberToString (int now)"
  let ?d' = "d\<lparr>books := (books d)(?k \<mapsto> encodeBook ?k book)\<rparr>"
  have "createBook db now book = Inr (?k, Some ?d')"
    using h by (simp add: createBook_def Let_def)
  moreover have "getBookById (Some ?d') ?k =
      Inr (Some (book\<lparr>bookId := ?k, genreTags := Some (tagsOf book)\<rparr>))"
    by (rule getBookById_encodeBook) simp
  ultimately show "\<exists>db'. createBook db now book = Inr (?k, db') \<and>
      getBookById db' ?k = Inr (Some (book\<lparr>bookId := ?k,
         genreTags := Some (case genreTags book of None \<Rightarrow> [] | Some g \<Rightarrow> g)\<rparr>))"
    by (auto simp: tagsOf_def)
next
  assume "db = Some d \<and> books d ident = Some row \<and> genreTags row = None"
  then show "\<exists>b. getBookById db ident = Inr (Some b) \<and> genreTags b = Some []"
    by (simp add: getBookById_def decodeGenreTags_def decodeBook_def)
qed

lemma freshStore_books: "books freshStore = Map.empty"
  by (simp add: freshStore_def createDefaultData_def)

theorem genreTags_roundtrip_witness:
  "(\<exists>db'. createBook (Some freshStore) 1767348000000 exampleBook = Inr (numberToString 1767348000000, db') \<and>
          getBookById db' (numberToString 1767348000000) =
            Inr (Some (exampleBook\<lparr>bookId := numberToString 1767348000000,
                                   genreTags := Some [''finance'', ''self-help'']\<rparr>))) \<and>
   (\<exists>b. getBookById (Some (freshStore\<lparr>books := [''7'' \<mapsto> (encodeBook ''7'' exampleBook)\<lparr>genreTags := None\<rparr>]\<rparr>)) ''7''
            = Inr (Some b) \<and> genreTags b = Some [])"
proof -
  have h1: "Some freshStore = Some freshStore \<and> books freshStore (numberToString (int 1767348000000)) = None"
    by (simp add: freshStore_books)
  let ?row = "(encodeBook ''7'' exampleBook)\<lparr>genreTags := None\<rparr>"
  let ?d = "freshStore\<lparr>books := [''7'' \<mapsto> ?row]\<rparr>"
  have h2: "Some ?d = Some ?d \<and> books ?d ''7'' = Some ?row \<and> genreTags ?row = None"
    by simp
  have g: "(case genreTags exampleBook of None \<Rightarrow> [] | Some g \<Rightarrow> g) = [''finance'', ''self-help'']"
    by (simp add: exampleBook_def)
  from genreTags_roundtrip [of g "Some freshStore" freshStore 1767348000000 exampleBook ident row] h1
       genreTags_roundtrip [of g "Some ?d" ?d now book "''7''" ?row] h2
  show ?thesis by (simp add: g)
qed


section \<open>Completion, favourites and the subscription record\<close>

lemma exampleStore_read:
  "getBookById (Some exampleStore) ''1767348000000''
     = Inr (Some (exampleBook\<lparr>bookId := ''1767348000000''\<rparr>))"
proof -
  have "books exampleStore ''1767348000000'' = Some (encodeBook ''1767348000000'' exampleBook)"
    by (simp add: exampleStore_def)
  from getBookById_encodeBook [OF this] show ?thesis
    by (simp add: tagsOf_def exampleBook_def)
qed

text \<open>
  Claim C4. For a stored book that \<open>getBookById\<close> reads as \<open>b\<close>, \<open>markBookCompleted\<close>
  succeeds, and the book read back afterwards is \<open>b\<close> with \<open>isCompleted\<close> true,
  \<open>categoryId\<close> \<open>"4"\<close> and the new \<open>updatedAt\<close>: whatever its category was, and with
  every other field unchanged.
\<close>

theorem markBookCompleted_read:
  assumes "getBookById db ident = Inr (Some b)"
  shows "\<exists>db'. markBookCompleted db now ident = Inr db' \<and>
           getBookById db' ident =
             Inr (Some (b\<lparr>isCompleted := True, categoryId := Some ''4'', updatedAt := now\<rparr>))"
proof -
  from assms obtain d row tags where
    d: "db = Some d" and row: "books d ident = Some row" and
    tags: "decodeGenreTags (genreTags row) = Some tags" and b: "b = decodeBook row tags"
    by (auto simp: getBookById_Some)
  let ?row' = "row\<lparr>isCompleted := 1, categoryId := Some ''4'', updatedAt := now\<rparr>"
  let ?db' = "Some (d\<lparr>books := (books d)(ident \<mapsto> ?row')\<rparr>)"
  have "markBookCompleted db now ident = Inr ?db'"
    using d row by (simp add: markBookCompleted_def updateWhereId_def)
  moreover have "getBookById ?db' ident =
      Inr (Some (b\<lparr>isCompleted := True, categoryId := Some ''4'', updatedAt := now\<rparr>))"
    using tags b by (simp add: getBookById_def decodeBook_def)
  ultimately show ?thesis by blast
qed

theorem markBookCompleted_read_witness:
  "\<exists>db'. markBookCompleted (Some exampleStore) ''2026-02-01T08:00:00.000Z'' ''1767348000000'' = Inr db' \<and>
         getBookById db' ''1767348000000'' =
           Inr (Some (exampleBook\<lparr>bookId := ''1767348000000'', isCompleted := True,
                                  categoryId := Some ''4'',
                                  updatedAt := ''2026-02-01T08:00:00.000Z''\<rparr>))"
  using markBookCompleted_read [OF exampleStore_read, of "''2026-02-01T08:00:00.000Z''"]
  by simp

text \<open>
  Claim C8. For a stored book that \<open>getBookById\<close> reads as \<open>b\<close>, one call of
  \<open>toggleBookFavorite\<close> succeeds, and the book read back afterwards has \<open>isFavorite\<close>
  negated (and the new \<open>updatedAt\<close>, nothing else changed).
\<close>

theorem toggleBookFavorite_negates:
  assumes "getBookById db ident = Inr (Some b)"
  shows "\<exists>db'. toggleBookFavorite db now ident = Inr db' \<and>
           getBookById db' ident =
             Inr (Some (b\<lparr>isFavorite := \<not> isFavorite b, updatedAt := now\<rparr>))"
proof -
  from assms obtain d row tags where
    d: "db = Some d" and row: "books d ident = Some row" and
    tags: "decodeGenreTags (genreTags row) = Some tags" and b: "b = decodeBook row tags"
    by (auto simp: getBookById_Some)
  let ?row' = "row\<lparr>isFavorite := (if isFavorite b then 0 else 1), updatedAt := now\<rparr>"
  let ?db' = "Some (d\<lparr>books := (books d)(ident \<mapsto> ?row')\<rparr>)"
  have "toggleBookFavorite db now ident = Inr ?db'"
    using assms d row by (simp add: toggleBookFavorite_def updateWhereId_def)
  moreover have "getBookById ?db' ident =
      Inr (Some (b\<lparr>isFavorite := \<not> isFavorite b, updatedAt := now\<rparr>))"
    using tags b by (simp add: getBookById_def decodeBook_def)
  ultimately show ?thesis by blast
qed

theorem toggleBookFavorite_negates_witness:
  "\<exists>db'. toggleBookFavorite (Some exampleStore) ''2026-02-01T08:00:00.000Z'' ''1767348000000'' = Inr db' \<and>
         getBookById db' ''1767348000000'' =
           Inr (Some (exampleBook\<lparr>bookId := ''1767348000000'', isFavorite := True,
                                  updatedAt := ''2026-02-01T08:00:00.000Z''\<rparr>))"
proof -
  have "\<not> isFavorite (exampleBook\<lparr>bookId := ''1767348000000''\<rparr>)"
    by (simp add: exampleBook_def)
  with toggleBookFavorite_negates [OF exampleStore_read, of "''2026-02-01T08:00:00.000Z''"]
  show ?thesis by simp
qed

text \<open>
  Claim C10. On an initialised store without a book of the given id,
  \<open>toggleBookFavorite\<close> returns without an exception and the store is the same as
  before.
\<close>

theorem toggleBookFavorite_missing:
  assumes "db = Some d" and "books d ident = None"
  shows "toggleBookFavorite db now ident = Inr db"
  using assms by (simp add: toggleBookFavorite_def getBookById_def)

theorem toggleBookFavorite_missing_witness:
  "toggleBookFavorite (Some exampleStore) ''2026-02-01T08:00:00.000Z'' ''42'' = Inr (Some exampleStore)"
proof -
  have "books exampleStore ''42'' = None"
    by (simp add: exampleStore_def)
  from toggleBookFavorite_missing [OF refl this] show ?thesis .
qed

lemma toggleBookFavorite_uninitialised:
  "toggleBookFavorite None now ident = Inl NotInitialized"
  by (simp add: toggleBookFavorite_def)

lemma freshStore_subscription:
  "getUserSubscription (Some freshStore) =
     Inr (Some \<lparr>subId = ''1'', tier = ''free'', subPrice = 0,
                features = [''Basic reading'', ''Notes'', ''Basic TTS''],
                booksPerMonth = 0, hasAI = False, hasNaturalTTS = False, expiresAt = None,
                subCreatedAt = ''2026-01-01T00:00:00.000Z''\<rparr>)"
  by (simp add: getUserSubscription_def freshStore_def createDefaultData_def
        defaultSubscriptionRow_def JSON_roundtrip)



lemma getUserSubscription_Some:
  "getUserSubscription db = Inr (Some s) \<longleftrightarrow>
     (\<exists>d row fs. db = Some d \<and> userSubscription d ''1'' = Some row \<and>
        JSON_parse (features row) = Some fs \<and>
        s = \<lparr>subId = subId row, tier = tier row, subPrice = subPrice row, features = fs,
              booksPerMonth = booksPerMonth row, hasAI = (hasAI row \<noteq> 0),
              hasNaturalTTS = (hasNaturalTTS row \<noteq> 0), expiresAt = expiresAt row,
              subCreatedAt = subCreatedAt row\<rparr>)"
  by (auto simp: getUserSubscription_def split: option.splits)

lemma updateSubscription_result:
  assumes "getUserSubscription db = Inr (Some current)"
    and "p_tier p \<noteq> Undefined" and "p_price p \<noteq> Undefined"
    and "p_features p \<noteq> Undefined" and "p_booksPerMonth p \<noteq> Undefined"
  shows "\<exists>db'. updateSubscription db p = Inr db' \<and>
           getUserSubscription db' = Inr (Some
             \<lparr>subId = subId current,
              tier = (case p_tier p of Value v \<Rightarrow> v | _ \<Rightarrow> tier current),
              subPrice = (case p_price p of Value v \<Rightarrow> v | _ \<Rightarrow> subPrice current),
              features = (case p_features p of Value v \<Rightarrow> v | _ \<Rightarrow> features current),
              booksPerMonth = (case p_booksPerMonth p of Value v \<Rightarrow> v | _ \<Rightarrow> booksPerMonth current),
              hasAI = (case p_hasAI p of Absent \<Rightarrow> hasAI current | Undefined \<Rightarrow> False | Value v \<Rightarrow> v),
              hasNaturalTTS = (case p_hasNaturalTTS p of Absent \<Rightarrow> hasNaturalTTS current
                               | Undefined \<Rightarrow> False | Value v \<Rightarrow> v),
              expiresAt = (case p_expiresAt p of Absent \<Rightarrow> expiresAt current
                           | Undefined \<Rightarrow> None | Value v \<Rightarrow> Some v),
              subCreatedAt = subCreatedAt current\<rparr>)"
proof -
  from assms(1) obtain d row fs where
    d: "db = Some d" and row: "userSubscription d ''1'' = Some row" and
    cur: "current = \<lparr>subId = subId row, tier = tier row, subPrice = subPrice row, features = fs,
              booksPerMonth = booksPerMonth row, hasAI = (hasAI row \<noteq> 0),
              hasNaturalTTS = (hasNaturalTTS row \<noteq> 0), expiresAt = expiresAt row,
              subCreatedAt = subCreatedAt row\<rparr>"
    by (auto simp: getUserSubscription_Some)
  define t where "t = (case p_tier p of Value v \<Rightarrow> v | _ \<Rightarrow> tier current)"
  define pr where "pr = (case p_price p of Value v \<Rightarrow> v | _ \<Rightarrow> subPrice current)"
  define f where "f = (case p_features p of Value v \<Rightarrow> v | _ \<Rightarrow> features current)"
  define bpm where "bpm = (case p_booksPerMonth p of Value v \<Rightarrow> v | _ \<Rightarrow> booksPerMonth current)"
  have st: "spread (Some (tier current)) (p_tier p) = Some t"
    using assms(2) by (cases "p_tier p") (simp_all add: spread_def t_def)
  have sp: "spread (Some (subPrice current)) (p_price p) = Some pr"
    using assms(3) by (cases "p_price p") (simp_all add: spread_def pr_def)
  have sf: "spread (Some (features current)) (p_features p) = Some f"
    using assms(4) by (cases "p_features p") (simp_all add: spread_def f_def)
  have sb: "spread (Some (booksPerMonth current)) (p_booksPerMonth p) = Some bpm"
    using assms(5) by (cases "p_booksPerMonth p") (simp_all add: spread_def bpm_def)
  define ai where "ai = (case p_hasAI p of Absent \<Rightarrow> hasAI current | Undefined \<Rightarrow> False | Value v \<Rightarrow> v)"
  define tts where "tts = (case p_hasNaturalTTS p of Absent \<Rightarrow> hasNaturalTTS current
                               | Undefined \<Rightarrow> False | Value v \<Rightarrow> v)"
  define ex where "ex = (case p_expiresAt p of Absent \<Rightarrow> expiresAt current
                           | Undefined \<Rightarrow> None | Value v \<Rightarrow> Some v)"
  have sai: "(spread (Some (hasAI current)) (p_hasAI p) = Some True) = ai"
    by (cases "p_hasAI p") (simp_all add: spread_def ai_def)
  have stts: "(spread (Some (hasNaturalTTS current)) (p_hasNaturalTTS p) = Some True) = tts"
    by (cases "p_hasNaturalTTS p") (simp_all add: spread_def tts_def)
  have sex: "spread (expiresAt current) (p_expiresAt p) = ex"
    by (cases "p_expiresAt p") (simp_all add: spread_def ex_def)
  let ?row' = "row\<lparr>tier := t, subPrice := pr, features := JSON_stringify f, booksPerMonth := bpm,
                     hasAI := (if ai then 1 else 0), hasNaturalTTS := (if tts then 1 else 0),
                     expiresAt := ex\<rparr>"
  let ?db' = "Some (d\<lparr>userSubscription := (userSubscription d)(''1'' \<mapsto> ?row')\<rparr>)"
  have "updateSubscription db p = Inr ?db'"
    using assms(1) d row
    by (simp add: updateSubscription_def st sp sf sb sai stts sex updateWhereId_def)
  moreover have "getUserSubscription ?db' = Inr (Some
      \<lparr>subId = subId current, tier = t, subPrice = pr, features = f, booksPerMonth = bpm,
       hasAI = ai, hasNaturalTTS = tts, expiresAt = ex, subCreatedAt = subCreatedAt current\<rparr>)"
    by (simp add: getUserSubscription_def JSON_roundtrip cur)
  ultimately show ?thesis
    unfolding t_def pr_def f_def bpm_def ai_def tts_def ex_def by blast
qed

lemma updateSubscription_refused:
  assumes "getUserSubscription db = Inr (Some current)"
    and "p_tier p = Undefined \<or> p_price p = Undefined \<or> p_features p = Undefined \<or>
         p_booksPerMonth p = Undefined"
  shows "updateSubscription db p = Inl ConstraintFailed"
proof -
  from assms(1) obtain d where d: "db = Some d"
    by (auto simp: getUserSubscription_Some)
  have "spread (Some (tier current)) (p_tier p) = None \<or>
        spread (Some (subPrice current)) (p_price p) = None \<or>
        spread (Some (features current)) (p_features p) = None \<or>
        spread (Some (booksPerMonth current)) (p_booksPerMonth p) = None"
    using assms(2) by (auto simp: spread_def)
  then show ?thesis
    using assms(1) d by (auto simp: updateSubscription_def split: option.splits)
qed

text \<open>
  Claim C9, as the source has it. A partial record with the field \<open>createdAt\<close> leaves the
  stored \<open>createdAt\<close> as it was: the UPDATE statement does not name that column.
\<close>

theorem updateSubscription_createdAt_counterexample:
  "\<exists>db'. updateSubscription (Some freshStore) createdAtOnly = Inr db' \<and>
         p_createdAt createdAtOnly = Value ''2030-06-01T00:00:00.000Z'' \<and>
         map_sum id (map_option subCreatedAt) (getUserSubscription db')
           = Inr (Some ''2026-01-01T00:00:00.000Z'')"
proof -
  have "p_tier createdAtOnly \<noteq> Undefined" "p_price createdAtOnly \<noteq> Undefined"
       "p_features createdAtOnly \<noteq> Undefined" "p_booksPerMonth createdAtOnly \<noteq> Undefined"
    by (simp_all add: createdAtOnly_def)
  from updateSubscription_result [OF freshStore_subscription this] show ?thesis
    by (auto simp: createdAtOnly_def)
qed


text \<open>
  Claim C9, amended. Let \<open>getUserSubscription\<close> read the stored record as \<open>current\<close>.
  A partial in which \<open>tier\<close>, \<open>price\<close>, \<open>features\<close> or \<open>booksPerMonth\<close> is present with
  the value \<open>undefined\<close> makes \<open>updateSubscription\<close> throw (the column is NOT NULL), and
  nothing is written. For every other partial the call succeeds, and the record read
  afterwards has: in \<open>tier\<close>, \<open>price\<close>, \<open>features\<close> and \<open>booksPerMonth\<close> the partial's value
  where the partial has the field and the stored value where it has not; in \<open>hasAI\<close> and
  \<open>hasNaturalTTS\<close> the partial's value, false where the partial has the field with the
  value \<open>undefined\<close>, and the stored value where the partial has not the field; in
  \<open>expiresAt\<close> the partial's value, nothing where the partial has the field with the value
  \<open>undefined\<close>, and the stored value where the partial has not the field; in \<open>id\<close> and
  \<open>createdAt\<close> the stored values, also when the partial has these fields.
\<close>

theorem updateSubscription_merge:
  assumes "getUserSubscription db = Inr (Some current)"
  shows "if p_tier p = Undefined \<or> p_price p = Undefined \<or> p_features p = Undefined \<or>
            p_booksPerMonth p = Undefined
         then updateSubscription db p = Inl ConstraintFailed
         else \<exists>db'. updateSubscription db p = Inr db' \<and>
           getUserSubscription db' = Inr (Some
             \<lparr>subId = subId current,
              tier = (case p_tier p of Value v \<Rightarrow> v | _ \<Rightarrow> tier current),
              subPrice = (case p_price p of Value v \<Rightarrow> v | _ \<Rightarrow> subPrice current),
              features = (case p_features p of Value v \<Rightarrow> v | _ \<Rightarrow> features current),
              booksPerMonth = (case p_booksPerMonth p of Value v \<Rightarrow> v | _ \<Rightarrow> booksPerMonth current),
              hasAI = (case p_hasAI p of Absent \<Rightarrow> hasAI current | Undefined \<Rightarrow> False | Value v \<Rightarrow> v),
              hasNaturalTTS = (case p_hasNaturalTTS p of Absent \<Rightarrow> hasNaturalTTS current
                               | Undefined \<Rightarrow> False | Value v \<Rightarrow> v),
              expiresAt = (case p_expiresAt p of Absent \<Rightarrow> expiresAt current
                           | Undefined \<Rightarrow> None | Value v \<Rightarrow> Some v),
              subCreatedAt = subCreatedAt current\<rparr>)"
proof (cases "p_tier p = Undefined \<or> p_price p = Undefined \<or> p_features p = Undefined \<or>
            p_booksPerMonth p = Undefined")
  case True
  with updateSubscription_refused [OF assms True] show ?thesis by (simp only: if_True)
next
  case False
  then have "p_tier p \<noteq> Undefined" "p_price p \<noteq> Undefined"
    "p_features p \<noteq> Undefined" "p_booksPerMonth p \<noteq> Undefined" by simp_all
  from updateSubscription_result [OF assms this] False show ?thesis by (simp only: if_False)
qed

theorem updateSubscription_merge_witness:
  "(\<exists>db'. updateSubscription (Some freshStore) basicUpgrade = Inr db' \<and>
         getUserSubscription db' = Inr (Some
           \<lparr>subId = ''1'', tier = ''basic'', subPrice = 5,
            features = [''Everything in Free'', ''AI explanations'', ''1 free book/month'',
                        ''Natural TTS''],
            booksPerMonth = 1, hasAI = True, hasNaturalTTS = True,
            expiresAt = Some ''2026-01-31T00:00:00.000Z'',
            subCreatedAt = ''2026-01-01T00:00:00.000Z''\<rparr>)) \<and>
   updateSubscription (Some freshStore) tierUndefined = Inl ConstraintFailed"
proof -
  have ok: "\<not> (p_tier basicUpgrade = Undefined \<or> p_price basicUpgrade = Undefined \<or>
            p_features basicUpgrade = Undefined \<or> p_booksPerMonth basicUpgrade = Undefined)"
    by (simp add: basicUpgrade_def)
  have bad: "p_tier tierUndefined = Undefined \<or> p_price tierUndefined = Undefined \<or>
            p_features tierUndefined = Undefined \<or> p_booksPerMonth tierUndefined = Undefined"
    by (simp add: tierUndefined_def)
  from updateSubscription_merge [OF freshStore_subscription, of basicUpgrade] ok
  have a: "\<exists>db'. updateSubscription (Some freshStore) basicUpgrade = Inr db' \<and>
         getUserSubscription db' = Inr (Some
           \<lparr>subId = ''1'', tier = ''basic'', subPrice = 5,
            features = [''Everything in Free'', ''AI explanations'', ''1 free book/month'',
                        ''Natural TTS''],
            booksPerMonth = 1, hasAI = True, hasNaturalTTS = True,
            expiresAt = Some ''2026-01-31T00:00:00.000Z'',
            subCreatedAt = ''2026-01-01T00:00:00.000Z''\<rparr>)"
    by (simp add: basicUpgrade_def)
  from updateSubscription_merge [OF freshStore_subscription, of tierUndefined] bad
  have b: "updateSubscription (Some freshStore) tierUndefined = Inl ConstraintFailed"
    by (simp only: if_True)
  from a b show ?thesis by (intro conjI)
qed


section \<open>The subscription gate of the AI service\<close>

text \<open>
  Claim C6. When the subscription record has \<open>hasAI = false\<close>, \<open>askQuestion\<close> returns
  the failure with the subscription-required message and has sent no request, whatever the
  key, the network and the question are.
\<close>

theorem askQuestion_gate:
  assumes "getUserSubscription db = Inr (Some s)" and "\<not> hasAI s"
  shows "askQuestion db apiKey fetch question bookContent bookTitle page
           = (\<lparr>success = False, content = [], error = Some subscriptionRequired\<rparr>, [])"
  using assms by (simp add: askQuestion_def failure_def)

theorem askQuestion_gate_witness:
  "askQuestion (Some freshStore) ''sk-key'' (\<lambda>r. Response True ''OK'' (FirstChoice (Some ''An answer'')))
      ''What is compounding?'' ''Some page text'' ''Money Habits'' (Some 3)
     = (\<lparr>success = False, content = [], error = Some subscriptionRequired\<rparr>, [])"
  by (rule askQuestion_gate [OF freshStore_subscription]) simp


lemma askQuestion_entitled_sends:
  assumes "getUserSubscription db = Inr (Some s)" and "hasAI s" and "apiKey \<noteq> []"
  shows "snd (askQuestion db apiKey fetch question bookContent bookTitle page)
           = [buildRequest apiKey question bookContent bookTitle page]"
  using assms
  by (simp add: askQuestion_def Let_def split: fetchOutcome.splits responseBody.splits)


section \<open>Pages of the reader\<close>

lemma splitWhitespace_trailing_example:
  "splitWhitespace (''one two'' @ [CHR 0x0A]) = [''one'', ''two'', []]"
  by (simp add: splitWhitespace_def isWhitespace_def)

lemma splitFrom_word:
  "\<forall>c \<in> set w. \<not> isWhitespace c \<Longrightarrow> splitFrom acc (w @ rest) = splitFrom (rev w @ acc) rest"
  by (induction w arbitrary: acc) simp_all


lemma splitFrom_separator:
  assumes "isSeparator sep" and "rest = [] \<or> \<not> isWhitespace (hd rest)"
  shows "splitFrom acc (sep @ rest) = rev acc # splitFrom [] rest"
proof -
  from assms(1) obtain c sep' where sep: "sep = c # sep'" and c: "isWhitespace c"
    and sep': "\<forall>x \<in> set sep'. isWhitespace x"
    by (cases sep) (auto simp: isSeparator_def list_all_iff)
  have "dropWhile isWhitespace (sep' @ rest) = dropWhile isWhitespace rest"
    using sep' by (simp add: dropWhile_append2)
  also have "\<dots> = rest" using assms(2) by (cases rest) auto
  finally show ?thesis using c by (simp add: sep)
qed

lemma weave_head:
  assumes "isWord w"
  shows "weave w rest \<noteq> [] \<and> \<not> isWhitespace (hd (weave w rest))"
proof -
  from assms obtain c w' where "w = c # w'" and "\<not> isWhitespace c"
    by (cases w) (auto simp: isWord_def)
  then show ?thesis by (cases rest) auto
qed

lemma splitFrom_weave:
  assumes "list_all isWord (w # map snd rest)" and "list_all isSeparator (map fst rest)"
  shows "splitFrom acc (weave w rest) = (rev acc @ w) # map snd rest"
  using assms
proof (induction rest arbitrary: w acc)
  case Nil
  then have "\<forall>c \<in> set w. \<not> isWhitespace c" by (simp add: isWord_def list_all_iff)
  from splitFrom_word [OF this, of acc "[]"] show ?case by simp
next
  case (Cons p rest)
  obtain sep v where p: "p = (sep, v)" by (cases p)
  have w: "\<forall>c \<in> set w. \<not> isWhitespace c" using Cons.prems(1) by (simp add: isWord_def list_all_iff)
  have v: "isWord v" and vs: "list_all isWord (v # map snd rest)"
    and sep: "isSeparator sep" and seps: "list_all isSeparator (map fst rest)"
    using Cons.prems by (simp_all add: p)
  have "splitFrom acc (weave w (p # rest)) = splitFrom (rev w @ acc) (sep @ weave v rest)"
    using splitFrom_word [OF w, of acc "sep @ weave v rest"] by (simp add: p)
  also have "\<dots> = rev (rev w @ acc) # splitFrom [] (weave v rest)"
    using sep weave_head [OF v, of rest] by (intro splitFrom_separator) simp_all
  also have "splitFrom [] (weave v rest) = v # map snd rest"
    using Cons.IH [OF vs seps, of "[]"] by simp
  finally show ?case by (simp add: p)
qed

lemma splitWhitespace_weave:
  assumes "list_all isWord (w # map snd rest)" and "list_all isSeparator (map fst rest)"
  shows "splitWhitespace (weave w rest) = w # map snd rest"
  using splitFrom_weave [OF assms, of "[]"] by (simp add: splitWhitespace_def)

lemma isWord_word: "isWord ''word''"
  by (simp add: isWord_def isWhitespace_def)

lemma replicate_1000: "x # replicate 999 x = replicate 1000 x"
proof -
  have "(1000::nat) = Suc 999" by simp
  then show ?thesis by (simp only: replicate_Suc)
qed

lemma splitWhitespace_thousandWords: "splitWhitespace thousandWords = replicate 1000 ''word''"
proof -
  have "list_all isWord (''word'' # map snd (replicate 999 ([CHR '' '', CHR 0x0A], ''word'')))"
    by (simp add: list_all_iff isWord_word)
  moreover have "list_all isSeparator (map fst (replicate 999 ([CHR '' '', CHR 0x0A], ''word'')))"
    by (simp add: list_all_iff isSeparator_def isWhitespace_def)
  ultimately have "splitWhitespace thousandWords
      = ''word'' # map snd (replicate 999 ([CHR '' '', CHR 0x0A], ''word''))"
    unfolding thousandWords_def by (rule splitWhitespace_weave)
  then show ?thesis by (simp add: replicate_1000)
qed

lemma splitWhitespace_leading:
  "splitWhitespace (CHR 0x0A # thousandWords) = [] # replicate 1000 ''word''"
proof -
  have sep: "isSeparator [CHR 0x0A]" by (simp add: isSeparator_def isWhitespace_def)
  have hd: "thousandWords = [] \<or> \<not> isWhitespace (hd thousandWords)"
    unfolding thousandWords_def using weave_head [OF isWord_word] by blast
  from splitFrom_separator [OF sep hd, of "[]"] splitWhitespace_thousandWords
  show ?thesis by (simp add: splitWhitespace_def)
qed

lemma slice_page:
  assumes "0 \<le> k"
  shows "slice xs (k * 400) (k * 400 + 400) = take 400 (drop (nat k * 400) xs)"
proof -
  have k: "nat (k * 400) = nat k * 400" using assms by (simp add: nat_mult_distrib)
  show ?thesis
  proof (cases "k * 400 \<le> int (length xs)")
    case True
    then have "nat (min (k * 400 + 400) (int (length xs)) - k * 400) = min 400 (length xs - nat k * 400)"
      using assms k by (auto simp: min_def)
    then show ?thesis using True assms k
      by (simp add: slice_def Let_def min_absorb1) (metis take_take min.commute take_all_iff length_drop order_refl)
  next
    case False
    then show ?thesis using assms k by (simp add: slice_def Let_def min_def)
  qed
qed

lemma pageWords_take_drop:
  "0 \<le> r_currentPage rs \<Longrightarrow>
   pageWords rs = take 400 (drop (nat (r_currentPage rs) * 400) (splitWhitespace (r_content rs)))"
  by (simp add: pageWords_def wordsPerPage_def Let_def slice_page)

lemma pageCount_div:
  "pageCount text = - (- int (length (splitWhitespace text)) div 400)"
  using ceiling_divide_eq_div [of "int (length (splitWhitespace text))" 400, where 'a = rat]
  by (simp add: pageCount_def)


lemma join_single_empty: "join sep [[]] = []"
  by simp

lemma getPageContent_take_drop:
  assumes "0 \<le> r_currentPage rs"
  shows "getPageContent rs
           = join '' '' (take 400 (drop (nat (r_currentPage rs) * 400) (splitWhitespace (r_content rs))))"
proof (cases "r_content rs = []")
  case True
  then have "splitWhitespace (r_content rs) = [[]]" by (simp add: splitWhitespace_def)
  then show ?thesis using True by (cases "nat (r_currentPage rs) * 400") (simp_all add: getPageContent_def)
next
  case False
  then show ?thesis using assms by (simp add: getPageContent_def pageWords_take_drop)
qed


lemma loadBook_text:
  assumes "getBookById db ident = Inr (Some b)" and "fileType b = ''txt''"
  shows "r_content (loadBook db fs ident rs) = readTextFile fs (filePath b)"
    and "r_totalPages (loadBook db fs ident rs) = pageCount (readTextFile fs (filePath b))"
  using assms by (simp_all add: loadBook_def Let_def)

lemma goToPage_rejects:
  "page < 0 \<or> r_totalPages rs \<le> page \<Longrightarrow> goToPage db now1 now2 rs page = (None, db, rs)"
  by (auto simp: goToPage_def)

lemma goToPage_moves:
  "0 \<le> page \<and> page < r_totalPages rs \<Longrightarrow>
   r_currentPage (snd (snd (goToPage db now1 now2 rs page))) = page"
  by (simp add: goToPage_def Let_def split: option.splits sum.splits)

lemma pagination_general:
  assumes "getBookById db ident = Inr (Some b)" and "fileType b = ''txt''"
  shows "r_content (loadBook db fs ident rs) = readTextFile fs (filePath b)"
    and "r_totalPages (loadBook db fs ident rs)
           = \<lceil>(of_nat (length (splitWhitespace (readTextFile fs (filePath b)))) :: rat) / 400\<rceil>"
    and "0 \<le> k \<Longrightarrow> getPageContent ((loadBook db fs ident rs)\<lparr>r_currentPage := k\<rparr>)
           = join '' '' (take 400 (drop (nat k * 400) (splitWhitespace (readTextFile fs (filePath b)))))"
    and "0 \<le> k \<and> k < r_totalPages (loadBook db fs ident rs) \<Longrightarrow>
           r_currentPage (snd (snd (goToPage db' now1 now2
              ((loadBook db fs ident rs)\<lparr>r_currentPage := j\<rparr>) k))) = k"
    and "k < 0 \<or> r_totalPages (loadBook db fs ident rs) \<le> k \<Longrightarrow>
           goToPage db' now1 now2 ((loadBook db fs ident rs)\<lparr>r_currentPage := j\<rparr>) k
             = (None, db', (loadBook db fs ident rs)\<lparr>r_currentPage := j\<rparr>)"
proof -
  show c: "r_content (loadBook db fs ident rs) = readTextFile fs (filePath b)"
    using assms by (rule loadBook_text)
  show "r_totalPages (loadBook db fs ident rs)
           = \<lceil>(of_nat (length (splitWhitespace (readTextFile fs (filePath b)))) :: rat) / 400\<rceil>"
    using loadBook_text(2) [OF assms] by (simp add: pageCount_def)
  show "getPageContent ((loadBook db fs ident rs)\<lparr>r_currentPage := k\<rparr>)
           = join '' '' (take 400 (drop (nat k * 400) (splitWhitespace (readTextFile fs (filePath b)))))"
    if "0 \<le> k"
    using that c getPageContent_take_drop [of "(loadBook db fs ident rs)\<lparr>r_currentPage := k\<rparr>"]
    by simp
  show "r_currentPage (snd (snd (goToPage db' now1 now2
              ((loadBook db fs ident rs)\<lparr>r_currentPage := j\<rparr>) k))) = k"
    if "0 \<le> k \<and> k < r_totalPages (loadBook db fs ident rs)"
    using that by (intro goToPage_moves) simp
  show "goToPage db' now1 now2 ((loadBook db fs ident rs)\<lparr>r_currentPage := j\<rparr>) k
             = (None, db', (loadBook db fs ident rs)\<lparr>r_currentPage := j\<rparr>)"
    if "k < 0 \<or> r_totalPages (loadBook db fs ident rs) \<le> k"
    using that by (intro goToPage_rejects) simp
qed

lemma pagination_thousand:
  assumes "getBookById db ident = Inr (Some b)" and "fileType b = ''txt''"
    and tx: "readTextFile fs (filePath b) = weave w rest" and n: "length rest = 999"
    and wf: "list_all isWord (w # map snd rest)" "list_all isSeparator (map fst rest)"
  shows "r_totalPages (loadBook db fs ident rs) = 3"
    and "getPageContent ((loadBook db fs ident rs)\<lparr>r_currentPage := 0\<rparr>)
           = join '' '' (take 400 (w # map snd rest))"
    and "getPageContent ((loadBook db fs ident rs)\<lparr>r_currentPage := 1\<rparr>)
           = join '' '' (take 400 (drop 400 (w # map snd rest)))"
    and "getPageContent ((loadBook db fs ident rs)\<lparr>r_currentPage := 2\<rparr>)
           = join '' '' (drop 800 (w # map snd rest))"
    and "length (take 400 (w # map snd rest)) = 400"
    and "length (take 400 (drop 400 (w # map snd rest))) = 400"
    and "length (drop 800 (w # map snd rest)) = 200"
    and "goToPage db' now1 now2 ((loadBook db fs ident rs)\<lparr>r_currentPage := j\<rparr>) 3
           = (None, db', (loadBook db fs ident rs)\<lparr>r_currentPage := j\<rparr>)"
proof -
  have split: "splitWhitespace (readTextFile fs (filePath b)) = w # map snd rest"
    unfolding tx using wf by (rule splitWhitespace_weave)
  have len: "length (w # map snd rest) = 1000" using n by simp
  note g = pagination_general(3) [OF assms(1,2), where fs = fs and rs = rs]
  show p3: "r_totalPages (loadBook db fs ident rs) = 3"
    using loadBook_text(2) [OF assms(1,2), where fs = fs and rs = rs] split len by (simp add: pageCount_div)
  show "getPageContent ((loadBook db fs ident rs)\<lparr>r_currentPage := 0\<rparr>)
           = join '' '' (take 400 (w # map snd rest))"
    using g [where k = 0] split by simp
  show "getPageContent ((loadBook db fs ident rs)\<lparr>r_currentPage := 1\<rparr>)
           = join '' '' (take 400 (drop 400 (w # map snd rest)))"
    using g [where k = 1] split by simp
  have "take 400 (drop 800 (w # map snd rest)) = drop 800 (w # map snd rest)"
    using len by (intro take_all) simp
  then show "getPageContent ((loadBook db fs ident rs)\<lparr>r_currentPage := 2\<rparr>)
           = join '' '' (drop 800 (w # map snd rest))"
    using g [where k = 2] split by simp
  show "length (take 400 (w # map snd rest)) = 400" using len by simp
  show "length (take 400 (drop 400 (w # map snd rest))) = 400" using len by simp
  show "length (drop 800 (w # map snd rest)) = 200" using len by simp
  show "goToPage db' now1 now2 ((loadBook db fs ident rs)\<lparr>r_currentPage := j\<rparr>) 3
           = (None, db', (loadBook db fs ident rs)\<lparr>r_currentPage := j\<rparr>)"
    using p3 by (intro goToPage_rejects) simp
qed

lemma join_weave: "join sep (w # ws) = weave w (map (\<lambda>v. (sep, v)) ws)"
  by (induction ws arbitrary: w) simp_all

lemma replicate_pred: "0 < n \<Longrightarrow> replicate n x = x # replicate (n - 1) x"
  by (cases n) simp_all

lemma wordsOf_joined_words:
  assumes "0 < n"
  shows "wordsOf (join '' '' (replicate n ''word'')) = replicate n ''word''"
proof -
  have "join '' '' (replicate n ''word'')
          = weave ''word'' (map (\<lambda>v. ('' '', v)) (replicate (n - 1) ''word''))"
    using assms by (simp add: replicate_pred [OF assms] join_weave)
  moreover have "splitWhitespace (weave ''word'' (map (\<lambda>v. ('' '', v)) (replicate (n - 1) ''word'')))
          = ''word'' # map snd (map (\<lambda>v. ('' '', v)) (replicate (n - 1) ''word''))"
    by (rule splitWhitespace_weave)
       (simp_all add: list_all_iff isWord_word isSeparator_def isWhitespace_def)
  ultimately have "splitWhitespace (join '' '' (replicate n ''word'')) = replicate n ''word''"
    using assms by (simp add: replicate_pred [OF assms] comp_def)
  then show ?thesis by (simp add: wordsOf_def)
qed

lemma wordsOf_space_joined_words:
  assumes "0 < n"
  shows "wordsOf (join '' '' ([] # replicate n ''word'')) = replicate n ''word''"
proof -
  have j: "join '' '' ([] # replicate n ''word'') = '' '' @ join '' '' (replicate n ''word'')"
    by (subst replicate_pred [OF assms])+ simp
  have sep: "isSeparator '' ''" by (simp add: isSeparator_def isWhitespace_def)
  have "join '' '' (replicate n ''word'')
          = weave ''word'' (map (\<lambda>v. ('' '', v)) (replicate (n - 1) ''word''))"
    using assms by (simp add: replicate_pred [OF assms] join_weave)
  with weave_head [OF isWord_word]
  have hd: "join '' '' (replicate n ''word'') = [] \<or> \<not> isWhitespace (hd (join '' '' (replicate n ''word'')))"
    by simp
  have "splitWhitespace (join '' '' ([] # replicate n ''word''))
          = [] # splitWhitespace (join '' '' (replicate n ''word''))"
    unfolding j splitWhitespace_def using splitFrom_separator [OF sep hd, of "[]"] by simp
  then show ?thesis
    using wordsOf_joined_words [OF assms] by (simp add: wordsOf_def)
qed

lemma exampleBook_txt: "fileType (exampleBook\<lparr>bookId := ''1767348000000''\<rparr>) = ''txt''"
  by (simp add: exampleBook_def)

text \<open>
  Claim C5, as the source has it. A text of exactly 1000 words that begins with a line feed
  splits into 1001 pieces, the first of them empty. The pager gives it 3 pages, but page 0
  holds 399 words and page 2 holds 201. The empty text has no word, and gets 1 page.
\<close>

theorem pagination_leading_whitespace_counterexample:
  "length (wordsOf (CHR 0x0A # thousandWords)) = 1000 \<and>
   r_totalPages (loadBook (Some exampleStore) (\<lambda>path. Some (CHR 0x0A # thousandWords))
                   ''1767348000000'' initialReaderState) = 3 \<and>
   length (wordsOf (getPageContent
             ((loadBook (Some exampleStore) (\<lambda>path. Some (CHR 0x0A # thousandWords))
                 ''1767348000000'' initialReaderState)\<lparr>r_currentPage := 0\<rparr>))) = 399 \<and>
   length (wordsOf (getPageContent
             ((loadBook (Some exampleStore) (\<lambda>path. Some (CHR 0x0A # thousandWords))
                 ''1767348000000'' initialReaderState)\<lparr>r_currentPage := 2\<rparr>))) = 201 \<and>
   wordsOf [] = [] \<and>
   r_totalPages (loadBook (Some exampleStore) (\<lambda>path. Some [])
                   ''1767348000000'' initialReaderState) = 1"
proof -
  let ?fs = "\<lambda>path::string. Some (CHR 0x0A # thousandWords)"
  let ?rs = "loadBook (Some exampleStore) ?fs ''1767348000000'' initialReaderState"
  have rd: "readTextFile ?fs p = CHR 0x0A # thousandWords" for p
    by (simp add: readTextFile_def)
  note g = pagination_general [OF exampleStore_read exampleBook_txt, where fs = ?fs
      and rs = initialReaderState]
  have w: "length (wordsOf (CHR 0x0A # thousandWords)) = 1000"
    by (simp add: wordsOf_def splitWhitespace_leading)
  have p: "r_totalPages ?rs = 3"
    using loadBook_text(2) [OF exampleStore_read exampleBook_txt, where fs = ?fs
      and rs = initialReaderState]
    by (simp add: rd pageCount_div splitWhitespace_leading)
  have "getPageContent (?rs\<lparr>r_currentPage := 0\<rparr>) = join '' '' ([] # replicate 399 ''word'')"
    using g(3) [where k = 0] by (simp add: rd splitWhitespace_leading)
  then have p0: "length (wordsOf (getPageContent (?rs\<lparr>r_currentPage := 0\<rparr>))) = 399"
    by (simp add: wordsOf_space_joined_words)
  have "getPageContent (?rs\<lparr>r_currentPage := 2\<rparr>) = join '' '' (replicate 201 ''word'')"
    using g(3) [where k = 2] by (simp add: rd splitWhitespace_leading)
  then have p2: "length (wordsOf (getPageContent (?rs\<lparr>r_currentPage := 2\<rparr>))) = 201"
    by (simp add: wordsOf_joined_words)
  have e: "wordsOf [] = []" by (simp add: wordsOf_def splitWhitespace_def)
  have pe: "r_totalPages (loadBook (Some exampleStore) (\<lambda>path. Some [])
                   ''1767348000000'' initialReaderState) = 1"
    using loadBook_text(2) [OF exampleStore_read exampleBook_txt, where fs = "\<lambda>path. Some []"
      and rs = initialReaderState]
    by (simp add: readTextFile_def pageCount_div splitWhitespace_def)
  from w p p0 p2 e pe show ?thesis by (intro conjI)
qed

text \<open>
  Claim C5, amended. For a stored book of the text format the pager keeps as content what
  reading the file returns, and splits it at the runs of whitespace into pieces: a run at
  the start or at the end of the content leaves an empty piece there, and the empty content
  is one empty piece. The number of pages is the number of pieces divided by 400, rounded
  up, and the pages are counted from 0. Page \<open>k\<close> shows the pieces \<open>400k\<close> to \<open>400k + 399\<close>,
  joined by single spaces. \<open>goToPage\<close> moves to every index from 0 to the number of pages
  less one; for any other index it writes nothing and leaves the state as it was. In
  particular, for content of exactly 1000 words separated by runs of whitespace, with no
  whitespace before the first word or after the last, there are 3 pages, pages 0 and 1 hold
  400 words each, page 2 holds 200, and \<open>goToPage\<close> to index 3 changes nothing.
\<close>

theorem pagination:
  assumes "getBookById db ident = Inr (Some b)" and "fileType b = ''txt''"
  shows "r_content (loadBook db fs ident rs) = readTextFile fs (filePath b) \<and>
         r_totalPages (loadBook db fs ident rs)
           = \<lceil>(of_nat (length (splitWhitespace (readTextFile fs (filePath b)))) :: rat) / 400\<rceil> \<and>
         (0 \<le> k \<longrightarrow>
            getPageContent ((loadBook db fs ident rs)\<lparr>r_currentPage := k\<rparr>)
              = join '' '' (take 400 (drop (nat k * 400)
                                       (splitWhitespace (readTextFile fs (filePath b)))))) \<and>
         (0 \<le> k \<and> k < r_totalPages (loadBook db fs ident rs) \<longrightarrow>
            r_currentPage (snd (snd (goToPage db' now1 now2
               ((loadBook db fs ident rs)\<lparr>r_currentPage := j\<rparr>) k))) = k) \<and>
         (k < 0 \<or> r_totalPages (loadBook db fs ident rs) \<le> k \<longrightarrow>
            goToPage db' now1 now2 ((loadBook db fs ident rs)\<lparr>r_currentPage := j\<rparr>) k
              = (None, db', (loadBook db fs ident rs)\<lparr>r_currentPage := j\<rparr>)) \<and>
         (readTextFile fs (filePath b) = weave w rest \<and> length rest = 999 \<and>
          list_all isWord (w # map snd rest) \<and> list_all isSeparator (map fst rest) \<longrightarrow>
            r_totalPages (loadBook db fs ident rs) = 3 \<and>
            getPageContent ((loadBook db fs ident rs)\<lparr>r_currentPage := 0\<rparr>)
              = join '' '' (take 400 (w # map snd rest)) \<and>
            getPageContent ((loadBook db fs ident rs)\<lparr>r_currentPage := 1\<rparr>)
              = join '' '' (take 400 (drop 400 (w # map snd rest))) \<and>
            getPageContent ((loadBook db fs ident rs)\<lparr>r_currentPage := 2\<rparr>)
              = join '' '' (drop 800 (w # map snd rest)) \<and>
            length (take 400 (w # map snd rest)) = 400 \<and>
            length (take 400 (drop 400 (w # map snd rest))) = 400 \<and>
            length (drop 800 (w # map snd rest)) = 200 \<and>
            goToPage db' now1 now2 ((loadBook db fs ident rs)\<lparr>r_currentPage := j\<rparr>) 3
              = (None, db', (loadBook db fs ident rs)\<lparr>r_currentPage := j\<rparr>))"
proof (intro conjI impI)
  note g = pagination_general [OF assms]
  show "r_content (loadBook db fs ident rs) = readTextFile fs (filePath b)" by (rule g(1))
  show "r_totalPages (loadBook db fs ident rs)
           = \<lceil>(of_nat (length (splitWhitespace (readTextFile fs (filePath b)))) :: rat) / 400\<rceil>"
    by (rule g(2))
  show "getPageContent ((loadBook db fs ident rs)\<lparr>r_currentPage := k\<rparr>)
              = join '' '' (take 400 (drop (nat k * 400)
                                       (splitWhitespace (readTextFile fs (filePath b)))))"
    if "0 \<le> k" using that by (rule g(3))
  show "r_currentPage (snd (snd (goToPage db' now1 now2
               ((loadBook db fs ident rs)\<lparr>r_currentPage := j\<rparr>) k))) = k"
    if "0 \<le> k \<and> k < r_totalPages (loadBook db fs ident rs)" using that by (rule g(4))
  show "goToPage db' now1 now2 ((loadBook db fs ident rs)\<lparr>r_currentPage := j\<rparr>) k
              = (None, db', (loadBook db fs ident rs)\<lparr>r_currentPage := j\<rparr>)"
    if "k < 0 \<or> r_totalPages (loadBook db fs ident rs) \<le> k" using that by (rule g(5))
next
  assume h: "readTextFile fs (filePath b) = weave w rest \<and> length rest = 999 \<and>
          list_all isWord (w # map snd rest) \<and> list_all isSeparator (map fst rest)"
  note t = pagination_thousand [OF assms h [THEN conjunct1] h [THEN conjunct2, THEN conjunct1]
      h [THEN conjunct2, THEN conjunct2, THEN conjunct1]
      h [THEN conjunct2, THEN conjunct2, THEN conjunct2]]
  show "r_totalPages (loadBook db fs ident rs) = 3" by (rule t(1))
  show "getPageContent ((loadBook db fs ident rs)\<lparr>r_currentPage := 0\<rparr>)
              = join '' '' (take 400 (w # map snd rest))" by (rule t(2))
  show "getPageContent ((loadBook db fs ident rs)\<lparr>r_currentPage := 1\<rparr>)
              = join '' '' (take 400 (drop 400 (w # map snd rest)))" by (rule t(3))
  show "getPageContent ((loadBook db fs ident rs)\<lparr>r_currentPage := 2\<rparr>)
              = join '' '' (drop 800 (w # map snd rest))" by (rule t(4))
  show "length (take 400 (w # map snd rest)) = 400" by (rule t(5))
  show "length (take 400 (drop 400 (w # map snd rest))) = 400" by (rule t(6))
  show "length (drop 800 (w # map snd rest)) = 200" by (rule t(7))
  show "goToPage db' now1 now2 ((loadBook db fs ident rs)\<lparr>r_currentPage := j\<rparr>) 3
              = (None, db', (loadBook db fs ident rs)\<lparr>r_currentPage := j\<rparr>)" by (rule t(8))
qed

theorem pagination_witness:
  "r_totalPages (loadBook (Some exampleStore) (\<lambda>path. Some thousandWords) ''1767348000000''
                   initialReaderState) = 3 \<and>
   getPageContent ((loadBook (Some exampleStore) (\<lambda>path. Some thousandWords) ''1767348000000''
                      initialReaderState)\<lparr>r_currentPage := 0\<rparr>)
     = join '' '' (replicate 400 ''word'') \<and>
   getPageContent ((loadBook (Some exampleStore) (\<lambda>path. Some thousandWords) ''1767348000000''
                      initialReaderState)\<lparr>r_currentPage := 1\<rparr>)
     = join '' '' (replicate 400 ''word'') \<and>
   getPageContent ((loadBook (Some exampleStore) (\<lambda>path. Some thousandWords) ''1767348000000''
                      initialReaderState)\<lparr>r_currentPage := 2\<rparr>)
     = join '' '' (replicate 200 ''word'') \<and>
   r_currentPage (snd (snd (goToPage (Some exampleStore) ''2026-02-01T08:00:00.000Z''
       ''2026-02-01T08:00:01.000Z''
       ((loadBook (Some exampleStore) (\<lambda>path. Some thousandWords) ''1767348000000''
           initialReaderState)\<lparr>r_currentPage := 0\<rparr>) 2))) = 2 \<and>
   goToPage (Some exampleStore) ''2026-02-01T08:00:00.000Z'' ''2026-02-01T08:00:01.000Z''
     ((loadBook (Some exampleStore) (\<lambda>path. Some thousandWords) ''1767348000000''
         initialReaderState)\<lparr>r_currentPage := 2\<rparr>) 3
     = (None, Some exampleStore,
        (loadBook (Some exampleStore) (\<lambda>path. Some thousandWords) ''1767348000000''
           initialReaderState)\<lparr>r_currentPage := 2\<rparr>)"
proof -
  let ?fs = "\<lambda>path::string. Some thousandWords"
  let ?rs = "loadBook (Some exampleStore) ?fs ''1767348000000'' initialReaderState"
  let ?rest = "replicate 999 ([CHR '' '', CHR 0x0A], ''word'')"
  have h: "readTextFile ?fs (filePath (exampleBook\<lparr>bookId := ''1767348000000''\<rparr>))
             = weave ''word'' ?rest \<and> length ?rest = 999 \<and>
           list_all isWord (''word'' # map snd ?rest) \<and> list_all isSeparator (map fst ?rest)"
    by (simp add: readTextFile_def thousandWords_def list_all_iff isWord_word isSeparator_def
          isWhitespace_def)
  have ws: "''word'' # map snd ?rest = replicate 1000 ''word''"
    by (simp add: replicate_1000)
  note at2 = pagination [OF exampleStore_read exampleBook_txt, where fs = ?fs
      and rs = initialReaderState and k = 2 and j = 0 and db' = "Some exampleStore"
      and ?now1.0 = "''2026-02-01T08:00:00.000Z''" and ?now2.0 = "''2026-02-01T08:00:01.000Z''"
      and w = "''word''" and rest = ?rest]
  note at3 = pagination [OF exampleStore_read exampleBook_txt, where fs = ?fs
      and rs = initialReaderState and k = 3 and j = 2 and db' = "Some exampleStore"
      and ?now1.0 = "''2026-02-01T08:00:00.000Z''" and ?now2.0 = "''2026-02-01T08:00:01.000Z''"
      and w = "''word''" and rest = ?rest]
  note last2 = at2 [THEN conjunct2, THEN conjunct2, THEN conjunct2, THEN conjunct2, THEN conjunct2]
  note thousand = mp [OF last2 h]
  have p3: "r_totalPages ?rs = 3" by (rule thousand [THEN conjunct1])
  have c0: "getPageContent (?rs\<lparr>r_currentPage := 0\<rparr>) = join '' '' (replicate 400 ''word'')"
    using thousand [THEN conjunct2, THEN conjunct1, unfolded ws] by simp
  have c1: "getPageContent (?rs\<lparr>r_currentPage := 1\<rparr>) = join '' '' (replicate 400 ''word'')"
    using thousand [THEN conjunct2, THEN conjunct2, THEN conjunct1, unfolded ws] by simp
  have c2: "getPageContent (?rs\<lparr>r_currentPage := 2\<rparr>) = join '' '' (replicate 200 ''word'')"
    using thousand [THEN conjunct2, THEN conjunct2, THEN conjunct2, THEN conjunct1, unfolded ws]
    by simp
  have in_range: "(0::int) \<le> 2 \<and> 2 < r_totalPages ?rs" using p3 by simp
  have mv: "r_currentPage (snd (snd (goToPage (Some exampleStore) ''2026-02-01T08:00:00.000Z''
       ''2026-02-01T08:00:01.000Z'' (?rs\<lparr>r_currentPage := 0\<rparr>) 2))) = 2"
    by (rule mp [OF at2 [THEN conjunct2, THEN conjunct2, THEN conjunct2, THEN conjunct1] in_range])
  have out: "(3::int) < 0 \<or> r_totalPages ?rs \<le> 3" using p3 by simp
  have rj: "goToPage (Some exampleStore) ''2026-02-01T08:00:00.000Z'' ''2026-02-01T08:00:01.000Z''
       (?rs\<lparr>r_currentPage := 2\<rparr>) 3 = (None, Some exampleStore, ?rs\<lparr>r_currentPage := 2\<rparr>)"
    by (rule mp [OF at3 [THEN conjunct2, THEN conjunct2, THEN conjunct2, THEN conjunct2,
          THEN conjunct1] out])
  from p3 c0 c1 c2 mv rj show ?thesis by (intro conjI)
qed


section \<open>Recommendations: the top genres and the order of the result\<close>

lemma digitsOf_digits: "\<forall>c \<in> set (digitsOf n). 48 \<le> (of_char c :: nat) \<and> (of_char c :: nat) \<le> 57"
proof (induction n rule: digitsOf.induct)
  case (1 n)
  show ?case
  proof (cases "n < 10")
    case True
    then show ?thesis by (subst digitsOf.simps) simp
  next
    case False
    have "n mod 10 < 10" by simp
    then have "48 + n mod 10 < 256" by linarith
    with False 1 show ?thesis by (subst digitsOf.simps) (simp add: mod_less)
  qed
qed

lemma arrayIndex_None:
  assumes "\<exists>c \<in> set k. \<not> (48 \<le> (of_char c :: nat) \<and> (of_char c :: nat) \<le> 57)"
  shows "arrayIndex k = None"
  using assms digitsOf_digits [of "decimalValue k"]
  by (auto simp: arrayIndex_def Let_def)

lemma arrayIndex_examples: "arrayIndex ''fiction'' = None" "arrayIndex ''finance'' = None"
  by (rule arrayIndex_None, simp)+


lemma genreBooks_cases:
  "genreBooks g =
     (if g = ''finance'' then [fin_1, fin_2] else if g = ''business'' then [bus_1, bus_2]
      else if g = ''fiction'' then [fic_1] else if g = ''technical'' then [tech_1] else [])"
  by (simp add: genreBooks_def bookDatabase_def)

lemma genreBooks_simps:
  "genreBooks ''finance'' = [fin_1, fin_2]" "genreBooks ''business'' = [bus_1, bus_2]"
  "genreBooks ''fiction'' = [fic_1]" "genreBooks ''technical'' = [tech_1]"
  by (simp_all add: genreBooks_cases)

lemma genreBooks_other:
  "g \<noteq> ''finance'' \<Longrightarrow> g \<noteq> ''business'' \<Longrightarrow> g \<noteq> ''fiction'' \<Longrightarrow> g \<noteq> ''technical''
   \<Longrightarrow> genreBooks g = []"
  by (simp add: genreBooks_cases)

lemma allBooks_simp: "concat (map snd bookDatabase) = [fin_1, fin_2, bus_1, bus_2, fic_1, tech_1]"
  by (simp add: bookDatabase_def)

lemma recId_simps:
  "recId fin_1 = ''fin-1''" "recId fin_2 = ''fin-2''" "recId bus_1 = ''bus-1''"
  "recId bus_2 = ''bus-2''" "recId fic_1 = ''fic-1''" "recId tech_1 = ''tech-1''"
  by (simp_all add: fin_1_def fin_2_def bus_1_def bus_2_def fic_1_def tech_1_def)

lemma genre_simps:
  "genre fin_1 = ''Finance''" "genre fin_2 = ''Finance''" "genre bus_1 = ''Business''"
  "genre bus_2 = ''Business''" "genre fic_1 = ''Fiction''" "genre tech_1 = ''Technical''"
  by (simp_all add: fin_1_def fin_2_def bus_1_def bus_2_def fic_1_def tech_1_def)


lemma length_recommendations:
  "distinct t \<Longrightarrow>
   length (concat (map genreBooks t)) =
     (if ''finance'' \<in> set t then 2 else 0) + (if ''business'' \<in> set t then 2 else 0) +
     (if ''fiction'' \<in> set t then 1 else 0) + (if ''technical'' \<in> set t then 1 else 0)"
proof (induction t)
  case Nil
  then show ?case by simp
next
  case (Cons g t)
  then have IH: "length (concat (map genreBooks t)) =
     (if ''finance'' \<in> set t then 2 else 0) + (if ''business'' \<in> set t then 2 else 0) +
     (if ''fiction'' \<in> set t then 1 else 0) + (if ''technical'' \<in> set t then 1 else 0)"
    and g: "g \<notin> set t" by simp_all
  consider "g = ''finance''" | "g = ''business''" | "g = ''fiction''" | "g = ''technical''"
    | "g \<noteq> ''finance''" "g \<noteq> ''business''" "g \<noteq> ''fiction''" "g \<noteq> ''technical''"
    by blast
  then show ?case
  proof cases
    case 1 with g IH show ?thesis by (simp add: genreBooks_simps genreBooks_other)
  next
    case 2 with g IH show ?thesis by (simp add: genreBooks_simps genreBooks_other)
  next
    case 3 with g IH show ?thesis by (simp add: genreBooks_simps genreBooks_other)
  next
    case 4 with g IH show ?thesis by (simp add: genreBooks_simps genreBooks_other)
  next
    case 5 with g IH show ?thesis by (simp add: genreBooks_simps genreBooks_other) 
  qed
qed

lemma in_recommendations:
  "list_ex (\<lambda>r. recId r = k) (concat (map genreBooks t))
     = (\<exists>g \<in> set t. list_ex (\<lambda>r. recId r = k) (genreBooks g))"
  by (induction t) (auto simp: list_ex_iff)

lemma in_genreBooks:
  "list_ex (\<lambda>r. recId r = ''fin-1'') (genreBooks g) = (g = ''finance'')"
  "list_ex (\<lambda>r. recId r = ''fin-2'') (genreBooks g) = (g = ''finance'')"
  "list_ex (\<lambda>r. recId r = ''bus-1'') (genreBooks g) = (g = ''business'')"
  "list_ex (\<lambda>r. recId r = ''bus-2'') (genreBooks g) = (g = ''business'')"
  "list_ex (\<lambda>r. recId r = ''fic-1'') (genreBooks g) = (g = ''fiction'')"
  "list_ex (\<lambda>r. recId r = ''tech-1'') (genreBooks g) = (g = ''technical'')"
  by (simp_all add: genreBooks_cases recId_simps)

lemma remaining_books:
  "filter (\<lambda>book. \<not> list_ex (\<lambda>r. recId r = recId book) (concat (map genreBooks t)))
      (concat (map snd bookDatabase))
   = (if ''finance'' \<in> set t then [] else [fin_1, fin_2]) @
     (if ''business'' \<in> set t then [] else [bus_1, bus_2]) @
     (if ''fiction'' \<in> set t then [] else [fic_1]) @
     (if ''technical'' \<in> set t then [] else [tech_1])"
  by (auto simp: allBooks_simp in_recommendations recId_simps in_genreBooks)


lemma not_all_four:
  assumes "distinct t" and "length t \<le> 3"
  shows "\<not> (''finance'' \<in> set t \<and> ''business'' \<in> set t \<and> ''fiction'' \<in> set t \<and> ''technical'' \<in> set t)"
proof
  assume "''finance'' \<in> set t \<and> ''business'' \<in> set t \<and> ''fiction'' \<in> set t \<and> ''technical'' \<in> set t"
  then have "{''finance'', ''business'', ''fiction'', ''technical''} \<subseteq> set t" by simp
  then have "card {''finance'', ''business'', ''fiction'', ''technical''} \<le> card (set t)"
    by (intro card_mono) simp_all
  moreover have "card {''finance'', ''business'', ''fiction'', ''technical''} = 4" by simp
  moreover have "card (set t) = length t" using assms(1) by (rule distinct_card)
  ultimately show False using assms(2) by simp
qed

lemma six_arithmetic:
  fixes a b c d :: bool
  assumes "\<not> (a \<and> b \<and> c \<and> d)"
    and "n = (if a then 2 else 0) + (if b then 2 else 0) + (if c then 1 else 0) + (if d then (1::nat) else 0)"
  shows "n < 6"
    and "length ((if a then [] else [f1, f2]) @ (if b then [] else [b1, b2]) @
                 (if c then [] else [c1]) @ (if d then [] else [d1])) = 6 - n"
  using assms by (cases a; cases b; cases c; cases d; simp)+

lemma recommendFor_all_six:
  assumes "distinct t" and "length t \<le> 3" and "\<forall>g \<in> set t. g \<notin> set objectPrototypeKeys"
  shows "recommendFor t = Some (concat (map genreBooks t) @
           (if ''finance'' \<in> set t then [] else [fin_1, fin_2]) @
           (if ''business'' \<in> set t then [] else [bus_1, bus_2]) @
           (if ''fiction'' \<in> set t then [] else [fic_1]) @
           (if ''technical'' \<in> set t then [] else [tech_1]))"
proof -
  define recs where "recs = concat (map genreBooks t)"
  define rem where "rem = (if ''finance'' \<in> set t then [] else [fin_1, fin_2]) @
           (if ''business'' \<in> set t then [] else [bus_1, bus_2]) @
           (if ''fiction'' \<in> set t then [] else [fic_1]) @
           (if ''technical'' \<in> set t then [] else [tech_1])"
  have len: "length recs =
     (if ''finance'' \<in> set t then 2 else 0) + (if ''business'' \<in> set t then 2 else 0) +
     (if ''fiction'' \<in> set t then 1 else 0) + (if ''technical'' \<in> set t then 1 else 0)"
    unfolding recs_def using assms(1) by (rule length_recommendations)
  note four = not_all_four [OF assms(1,2)]
  have lt: "length recs < 6" by (rule six_arithmetic(1) [OF four len])
  have total: "length rem = 6 - length recs"
    unfolding rem_def by (rule six_arithmetic(2) [OF four len])
  have ok: "\<not> list_ex (\<lambda>g. g \<in> set objectPrototypeKeys) t"
    using assms(3) by (simp add: list_ex_iff)
  have rm: "filter (\<lambda>book. \<not> list_ex (\<lambda>r. recId r = recId book) recs) (concat (map snd bookDatabase))
              = rem"
    unfolding recs_def rem_def by (rule remaining_books)
  have "recommendFor t = Some (take 8 (recs @ take (6 - length recs) rem))"
    unfolding recommendFor_def Let_def recs_def [symmetric] rm
    using ok lt by (simp only: if_False if_True)
  also have "take (6 - length recs) rem = rem" using total by simp
  also have "take 8 (recs @ rem) = recs @ rem" using total lt by simp
  finally show ?thesis unfolding recs_def rem_def .
qed

lemma recommendFor_length:
  assumes "distinct t" and "length t \<le> 3" and "\<forall>g \<in> set t. g \<notin> set objectPrototypeKeys"
  shows "\<exists>rs. recommendFor t = Some rs \<and> length rs = 6"
proof -
  define rem where "rem = (if ''finance'' \<in> set t then [] else [fin_1, fin_2]) @
           (if ''business'' \<in> set t then [] else [bus_1, bus_2]) @
           (if ''fiction'' \<in> set t then [] else [fic_1]) @
           (if ''technical'' \<in> set t then [] else [tech_1])"
  have len: "length (concat (map genreBooks t)) =
     (if ''finance'' \<in> set t then 2 else 0) + (if ''business'' \<in> set t then 2 else 0) +
     (if ''fiction'' \<in> set t then 1 else 0) + (if ''technical'' \<in> set t then 1 else 0)"
    using assms(1) by (rule length_recommendations)
  note four = not_all_four [OF assms(1,2)]
  have lt: "length (concat (map genreBooks t)) < 6" by (rule six_arithmetic(1) [OF four len])
  have total: "length rem = 6 - length (concat (map genreBooks t))"
    unfolding rem_def by (rule six_arithmetic(2) [OF four len])
  have "recommendFor t = Some (concat (map genreBooks t) @ rem)"
    unfolding rem_def using assms by (rule recommendFor_all_six)
  moreover have "length (concat (map genreBooks t) @ rem) = 6"
    using lt total by simp
  ultimately show ?thesis by blast
qed

lemma tally_concat:
  "analyzeGenrePreferences bs = foldl increment [] (concat (map tagsOf bs))"
proof -
  have "foldl (\<lambda>genreCount book. foldl increment genreCount (tagsOf book)) acc bs
          = foldl increment acc (concat (map tagsOf bs))" for acc
    by (induction bs arbitrary: acc) simp_all
  then show ?thesis by (simp add: analyzeGenrePreferences_def)
qed

lemma numeric_increment:
  assumes "numericTally gc = Some gf" and "g \<notin> set objectPrototypeKeys"
  shows "\<exists>gf'. numericTally (increment gc g) = Some gf' \<and>
           map fst gf' = (if g \<in> set (map fst gf) then map fst gf else map fst gf @ [g]) \<and>
           map_of gf' = (map_of gf)(g \<mapsto> (case map_of gf g of None \<Rightarrow> 1 | Some n \<Rightarrow> n + 1))"
  using assms
proof (induction gc g arbitrary: gf rule: increment.induct)
  case (1 g)
  then have "g \<noteq> ''__proto__''" by (auto simp: objectPrototypeKeys_def)
  with 1 show ?case by auto
next
  case (2 k v rest g)
  from "2.prems"(1) obtain n gr where v: "v = Count n" and gr: "numericTally rest = Some gr"
    and gf: "gf = (k, n) # gr"
    by (cases v) auto
  show ?case
  proof (cases "k = g")
    case True
    then show ?thesis using v gr gf by (auto simp: fun_eq_iff)
  next
    case False
    from "2.IH" [OF False gr "2.prems"(2)] obtain gr' where
      a: "numericTally (increment rest g) = Some gr'"
      and b: "map fst gr' = (if g \<in> set (map fst gr) then map fst gr else map fst gr @ [g])"
      and c: "map_of gr' = (map_of gr)(g \<mapsto> (case map_of gr g of None \<Rightarrow> 1 | Some n \<Rightarrow> n + 1))"
      by blast
    have "numericTally (increment ((k, v) # rest) g) = Some ((k, n) # gr')"
      using False v a by simp
    moreover have "map fst ((k, n) # gr')
        = (if g \<in> set (map fst gf) then map fst gf else map fst gf @ [g])"
      using False b gf by auto
    moreover have "map_of ((k, n) # gr')
        = (map_of gf)(g \<mapsto> (case map_of gf g of None \<Rightarrow> 1 | Some n \<Rightarrow> n + 1))"
      using False c gf by (auto simp: fun_eq_iff)
    ultimately show ?thesis by blast
  qed
qed

lemma numeric_tally:
  assumes "\<forall>g \<in> set tags. g \<notin> set objectPrototypeKeys"
  shows "\<exists>gf. numericTally (foldl increment [] tags) = Some gf \<and>
           map fst gf = rev (remdups (rev tags)) \<and>
           (\<forall>g. map_of gf g = (if g \<in> set tags then Some (count_list tags g) else None))"
  using assms
proof (induction tags rule: rev_induct)
  case Nil
  then show ?case by simp
next
  case (snoc t tags)
  then obtain gf where a: "numericTally (foldl increment [] tags) = Some gf"
    and b: "map fst gf = rev (remdups (rev tags))"
    and c: "\<forall>g. map_of gf g = (if g \<in> set tags then Some (count_list tags g) else None)"
    by auto
  from snoc.prems have t: "t \<notin> set objectPrototypeKeys" by simp
  from numeric_increment [OF a t] obtain gf' where
    a': "numericTally (increment (foldl increment [] tags) t) = Some gf'"
    and b': "map fst gf' = (if t \<in> set (map fst gf) then map fst gf else map fst gf @ [t])"
    and c': "map_of gf' = (map_of gf)(t \<mapsto> (case map_of gf t of None \<Rightarrow> 1 | Some n \<Rightarrow> n + 1))"
    by blast
  have "numericTally (foldl increment [] (tags @ [t])) = Some gf'" using a' by simp
  moreover have "map fst gf' = rev (remdups (rev (tags @ [t])))"
    using b' b by simp
  moreover have "\<forall>g. map_of gf' g
      = (if g \<in> set (tags @ [t]) then Some (count_list (tags @ [t]) g) else None)"
    using c' c by auto
  ultimately show ?case by blast
qed

lemma analyze_entries:
  assumes "\<forall>g \<in> set (concat (map tagsOf bs)). g \<notin> set objectPrototypeKeys"
  shows "\<exists>gf. numericTally (analyzeGenrePreferences bs) = Some gf \<and>
           map fst gf = rev (remdups (rev (concat (map tagsOf bs)))) \<and>
           (\<forall>g. map_of gf g = (if g \<in> set (concat (map tagsOf bs))
                        then Some (count_list (concat (map tagsOf bs)) g) else None))"
  unfolding tally_concat using assms by (rule numeric_tally)

lemma mset_Object_entries: "mset (Object_entries props) = mset props"
  by (simp add: Object_entries_def case_prod_unfold)

lemma Object_entries_plain:
  assumes "\<forall>k \<in> set (map fst props). arrayIndex k = None"
  shows "Object_entries props = props"
proof -
  have "filter (\<lambda>(k, v). arrayIndex k \<noteq> None) props = []"
    using assms by (auto simp: filter_empty_conv)
  moreover have "filter (\<lambda>(k, v). arrayIndex k = None) props = props"
    using assms by (auto simp: filter_id_conv)
  ultimately show ?thesis by (simp add: Object_entries_def)
qed

lemma mset_sortedEntries: "mset (sortedEntries gf) = mset gf"
  by (simp add: sortedEntries_def mset_Object_entries)

lemma sortedEntries_descending:
  "sorted_wrt (\<lambda>a b. snd b \<le> snd a) (sortedEntries gf)"
proof -
  have "sorted (map (\<lambda>(g, c). - int c) (sortedEntries gf))"
    by (simp add: sortedEntries_def)
  then have "sorted_wrt (\<lambda>x y. (case x of (g, c) \<Rightarrow> - int c) \<le> (case y of (g, c) \<Rightarrow> - int c))
               (sortedEntries gf)"
    by (simp add: sorted_map)
  then show ?thesis
    by (rule sorted_wrt_mono_rel [rotated]) (auto simp: case_prod_unfold)
qed

lemma sortedEntries_stable:
  assumes "snd a = snd b"
  shows "filter (\<lambda>x. x = a \<or> x = b) (sortedEntries gf)
           = filter (\<lambda>x. x = a \<or> x = b) (Object_entries gf)"
proof -
  let ?f = "\<lambda>(g, c). - int (c::nat)"
  let ?k = "- int (snd a)"
  have eq: "(\<lambda>x. (x = a \<or> x = b) \<and> ?f x = ?k) = (\<lambda>x::string \<times> nat. x = a \<or> x = b)"
    using assms by (auto simp: fun_eq_iff case_prod_unfold)
  have "filter (\<lambda>x. x = a \<or> x = b) (filter (\<lambda>y. ?f y = ?k) (sortedEntries gf))
          = filter (\<lambda>x. x = a \<or> x = b) (filter (\<lambda>y. ?f y = ?k) (Object_entries gf))"
    unfolding sortedEntries_def by (simp only: sort_key_stable)
  then show ?thesis by (simp add: eq conj_commute)
qed


lemma filter_pair_absent:
  "distinct xs \<Longrightarrow> a \<notin> set xs \<Longrightarrow>
   filter (\<lambda>g. g = a \<or> g = b) xs = (if b \<in> set xs then [b] else [])"
  by (induction xs) (auto simp: filter_empty_conv)

lemma filter_pair_ordered:
  assumes "distinct xs" and "a \<noteq> b" and "b \<in> set xs \<longrightarrow> a \<in> set (takeWhile (\<lambda>g. g \<noteq> b) xs)"
  shows "filter (\<lambda>g. g = a \<or> g = b) xs \<in> {[], [a], [a, b]}"
  using assms
proof (induction xs)
  case Nil
  then show ?case by simp
next
  case (Cons x xs)
  show ?case
  proof (cases "x = a")
    case True
    then have "a \<notin> set xs" using Cons.prems(1) by simp
    with Cons.prems(1) have "filter (\<lambda>g. g = a \<or> g = b) xs = (if b \<in> set xs then [b] else [])"
      by (simp add: filter_pair_absent)
    with True show ?thesis by simp
  next
    case False
    show ?thesis
    proof (cases "x = b")
      case True
      with Cons.prems(3) show ?thesis by simp
    next
      case xb: False
      have "b \<in> set xs \<longrightarrow> a \<in> set (takeWhile (\<lambda>g. g \<noteq> b) xs)"
        using Cons.prems(3) False xb by auto
      with Cons.IH Cons.prems(1,2) have "filter (\<lambda>g. g = a \<or> g = b) xs \<in> {[], [a], [a, b]}"
        by simp
      with False xb show ?thesis by simp
    qed
  qed
qed

lemma takeWhile_until:
  "k \<notin> set ps \<Longrightarrow> takeWhile (\<lambda>g. g \<noteq> k) (ps @ k # qs) = ps"
  by (induction ps) auto

lemma sorted_first_before:
  assumes sorted: "sorted_wrt (\<lambda>a b. snd b \<le> snd a) (s :: (string \<times> nat) list)"
    and dist: "distinct (map fst s)"
    and a: "(ka, ca) \<in> set s" and b: "(kb, cb) \<in> set s" and lt: "cb < ca"
    and top: "kb \<in> set (map fst (take n s))"
  shows "ka \<in> set (takeWhile (\<lambda>g. g \<noteq> kb) (map fst (take n s)))"
proof -
  from split_list_first [OF top]
  obtain ps qs where t: "map fst (take n s) = ps @ kb # qs" and ps: "kb \<notin> set ps"
    by blast
  then obtain us x vs where tk: "take n s = us @ x # vs" and us: "map fst us = ps"
    and x: "fst x = kb"
    by (auto simp: map_eq_append_conv map_eq_Cons_conv)
  have s: "s = us @ x # (vs @ drop n s)"
    using tk append_take_drop_id [of n s] by (metis append.assoc append_Cons)
  have "x \<in> set s" using s by (metis in_set_conv_decomp)
  with dist b x have xb: "x = (kb, cb)"
    by (metis eq_key_imp_eq_value prod.collapse)
  have tw: "takeWhile (\<lambda>g. g \<noteq> kb) (map fst (take n s)) = ps"
    unfolding t using ps by (rule takeWhile_until)
  have "(ka, ca) \<in> set us"
  proof (rule ccontr)
    assume nin: "(ka, ca) \<notin> set us"
    have "(ka, ca) \<noteq> x" using xb lt by auto
    with a nin s have "(ka, ca) \<in> set (vs @ drop n s)"
      by (metis Un_iff set_ConsD set_append)
    moreover have "\<forall>y \<in> set (vs @ drop n s). snd y \<le> snd x"
      using sorted by (subst (asm) s) (simp add: sorted_wrt_append)
    ultimately have "snd (ka, ca) \<le> snd x" by blast
    then show False using xb lt by simp
  qed
  then have "ka \<in> set ps" using us by force
  with tw show ?thesis by simp
qed



lemma filter_genre_recommendations:
  "filter (\<lambda>r. genre r = ''Finance'' \<or> genre r = ''Fiction'') (concat (map genreBooks t))
     = concat (map genreBooks (filter (\<lambda>g. g = ''finance'' \<or> g = ''fiction'') t))"
proof (induction t)
  case Nil
  then show ?case by simp
next
  case (Cons g t)
  consider "g = ''finance''" | "g = ''business''" | "g = ''fiction''" | "g = ''technical''"
    | "g \<noteq> ''finance''" "g \<noteq> ''business''" "g \<noteq> ''fiction''" "g \<noteq> ''technical''"
    by blast
  then show ?case
  proof cases
    case 1 with Cons show ?thesis by (simp add: genreBooks_simps genre_simps)
  next
    case 2 with Cons show ?thesis by (simp add: genreBooks_simps genre_simps)
  next
    case 3 with Cons show ?thesis by (simp add: genreBooks_simps genre_simps)
  next
    case 4 with Cons show ?thesis by (simp add: genreBooks_simps genre_simps)
  next
    case 5 with Cons show ?thesis by (simp add: genreBooks_other)
  qed
qed

lemma recommendFor_order:
  assumes "distinct t" and "length t \<le> 3" and "\<forall>g \<in> set t. g \<notin> set objectPrototypeKeys"
    and ord: "''fiction'' \<in> set t \<longrightarrow> ''finance'' \<in> set (takeWhile (\<lambda>g. g \<noteq> ''fiction'') t)"
  shows "\<exists>rs. recommendFor t = Some rs \<and>
           filter (\<lambda>r. genre r = ''Finance'' \<or> genre r = ''Fiction'') rs = [fin_1, fin_2, fic_1]"
proof -
  define P :: "RecommendedBook \<Rightarrow> bool"
    where "P = (\<lambda>r. genre r = ''Finance'' \<or> genre r = ''Fiction'')"
  define F where "F = filter (\<lambda>g. g = ''finance'' \<or> g = ''fiction'') t"
  define fin where "fin \<longleftrightarrow> ''finance'' \<in> set t"
  define bus where "bus \<longleftrightarrow> ''business'' \<in> set t"
  define fic where "fic \<longleftrightarrow> ''fiction'' \<in> set t"
  define tec where "tec \<longleftrightarrow> ''technical'' \<in> set t"
  define rem where "rem = (if fin then [] else [fin_1, fin_2]) @ (if bus then [] else [bus_1, bus_2]) @
             (if fic then [] else [fic_1]) @ (if tec then [] else [tech_1])"
  have P: "P fin_1" "P fin_2" "\<not> P bus_1" "\<not> P bus_2" "P fic_1" "\<not> P tech_1"
    by (simp_all add: P_def genre_simps)
  have r: "recommendFor t = Some (concat (map genreBooks t) @ rem)"
    unfolding rem_def fin_def bus_def fic_def tec_def using assms(1-3) by (rule recommendFor_all_six)
  have rem: "filter P rem = (if fin then [] else [fin_1, fin_2]) @ (if fic then [] else [fic_1])"
    unfolding rem_def using P by (cases fin; cases bus; cases fic; cases tec; simp)
  have recs: "filter P (concat (map genreBooks t)) = concat (map genreBooks F)"
    unfolding P_def F_def by (rule filter_genre_recommendations)
  have mem: "fin \<longleftrightarrow> ''finance'' \<in> set F" "fic \<longleftrightarrow> ''fiction'' \<in> set F"
    by (simp_all add: F_def fin_def fic_def)
  have ne: "''finance'' \<noteq> ''fiction''" by simp
  have "F \<in> {[], [''finance''], [''finance'', ''fiction'']}"
    unfolding F_def using assms(1) ne ord by (rule filter_pair_ordered)
  then consider "F = []" | "F = [''finance'']" | "F = [''finance'', ''fiction'']" by blast
  then have "concat (map genreBooks F) @ (if fin then [] else [fin_1, fin_2]) @ (if fic then [] else [fic_1])
               = [fin_1, fin_2, fic_1]"
  proof cases
    case 1
    then show ?thesis unfolding mem by simp
  next
    case 2
    then show ?thesis unfolding mem by (simp add: genreBooks_simps)
  next
    case 3
    then show ?thesis unfolding mem by (simp add: genreBooks_simps)
  qed
  moreover have "filter P (concat (map genreBooks t) @ rem)
                   = filter P (concat (map genreBooks t)) @ filter P rem"
    by (rule filter_append)
  ultimately have "filter P (concat (map genreBooks t) @ rem) = [fin_1, fin_2, fic_1]"
    unfolding rem recs by simp
  with r show ?thesis unfolding P_def by blast
qed

lemma topGenres_shape:
  assumes keys: "map fst gf = rev (remdups (rev tags))"
    and plain: "\<forall>g \<in> set tags. g \<notin> set objectPrototypeKeys"
  shows "distinct (topGenres gf)" and "length (topGenres gf) \<le> 3"
    and "\<forall>g \<in> set (topGenres gf). g \<notin> set objectPrototypeKeys"
proof -
  have dk: "distinct (map fst gf)" by (simp add: keys)
  have "mset (map fst (sortedEntries gf)) = mset (map fst gf)"
    by (simp add: mset_sortedEntries)
  then have d: "distinct (map fst (sortedEntries gf))"
    using dk by (metis mset_eq_imp_distinct_iff)
  have t: "topGenres gf = take 3 (map fst (sortedEntries gf))"
    by (simp add: topGenres_def take_map)
  show "distinct (topGenres gf)" unfolding t using d by (rule distinct_take)
  show "length (topGenres gf) \<le> 3" by (simp add: topGenres_def)
  have "set (topGenres gf) \<subseteq> set (map fst (sortedEntries gf))"
    unfolding t by (rule set_take_subset)
  also have "\<dots> = set (map fst gf)"
    using mset_sortedEntries [of gf] by (metis mset_eq_setD set_map)
  also have "\<dots> = set tags"
    by (simp add: keys)
  finally show "\<forall>g \<in> set (topGenres gf). g \<notin> set objectPrototypeKeys"
    using plain by blast
qed

lemma topGenres_finance_first:
  assumes keys: "map fst gf = rev (remdups (rev tags))"
    and counts: "\<forall>g. map_of gf g = (if g \<in> set tags then Some (count_list tags g) else None)"
    and lt: "count_list tags ''fiction'' < count_list tags ''finance''"
  shows "''fiction'' \<in> set (topGenres gf)
           \<longrightarrow> ''finance'' \<in> set (takeWhile (\<lambda>g. g \<noteq> ''fiction'') (topGenres gf))"
proof
  let ?S = "sortedEntries gf"
  assume top: "''fiction'' \<in> set (topGenres gf)"
  have dk: "distinct (map fst gf)" by (simp add: keys)
  have sets: "set ?S = set gf" using mset_sortedEntries [of gf] by (rule mset_eq_setD)
  have "mset (map fst ?S) = mset (map fst gf)" by (simp add: mset_sortedEntries)
  then have d: "distinct (map fst ?S)"
    using dk by (metis mset_eq_imp_distinct_iff)
  have entry: "(g, count_list tags g) \<in> set ?S" if "g \<in> set tags" for g
    using that counts [rule_format, of g] sets by (auto dest: map_of_SomeD)
  have "count_list tags ''finance'' \<noteq> 0" using lt by simp
  then have fin: "''finance'' \<in> set tags" by (simp add: count_list_0_iff)
  have "''fiction'' \<in> set (map fst ?S)"
    using top set_take_subset [of 3 ?S] by (auto simp: topGenres_def)
  also have "set (map fst ?S) = set (map fst gf)" using sets by simp
  also have "\<dots> = set tags" by (simp only: keys set_rev set_remdups)
  finally have fic: "''fiction'' \<in> set tags" .
  show "''finance'' \<in> set (takeWhile (\<lambda>g. g \<noteq> ''fiction'') (topGenres gf))"
    unfolding topGenres_def
    using sortedEntries_descending d entry [OF fin] entry [OF fic] lt top [unfolded topGenres_def]
    by (rule sorted_first_before)
qed

lemma selection_of_tally:
  assumes keys: "map fst gf = rev (remdups (rev tags))"
    and counts: "\<forall>g. map_of gf g = (if g \<in> set tags then Some (count_list tags g) else None)"
    and plain: "\<forall>g \<in> set tags. g \<notin> set objectPrototypeKeys"
  shows "topGenres gf = map fst (take 3 (sortedEntries gf)) \<and>
         mset (sortedEntries gf) = mset gf \<and>
         (\<forall>g. map_of gf g = (if g \<in> set tags then Some (count_list tags g) else None)) \<and>
         sorted_wrt (\<lambda>a b. snd b \<le> snd a) (sortedEntries gf) \<and>
         (\<forall>a b. snd a = snd b \<longrightarrow>
            filter (\<lambda>x. x = a \<or> x = b) (sortedEntries gf)
              = filter (\<lambda>x. x = a \<or> x = b) (Object_entries gf)) \<and>
         ((\<forall>g \<in> set tags. arrayIndex g = None) \<longrightarrow>
            map fst (Object_entries gf) = rev (remdups (rev tags))) \<and>
         (count_list tags ''fiction'' < count_list tags ''finance'' \<longrightarrow>
            (\<exists>rs. generateRecommendations gf = Some rs \<and>
                   filter (\<lambda>r. genre r = ''Finance'' \<or> genre r = ''Fiction'') rs
                     = [fin_1, fin_2, fic_1])) \<and>
         (\<exists>rs. generateRecommendations gf = Some rs \<and> length rs \<le> 8)"
proof (intro conjI allI impI)
  show "topGenres gf = map fst (take 3 (sortedEntries gf))" by (simp add: topGenres_def)
  show "mset (sortedEntries gf) = mset gf" by (rule mset_sortedEntries)
  show "sorted_wrt (\<lambda>a b. snd b \<le> snd a) (sortedEntries gf)" by (rule sortedEntries_descending)
  show "map_of gf g = (if g \<in> set tags then Some (count_list tags g) else None)" for g
    using counts by simp
  show "filter (\<lambda>x. x = a \<or> x = b) (sortedEntries gf)
          = filter (\<lambda>x. x = a \<or> x = b) (Object_entries gf)" if "snd a = snd b" for a b
    using that by (rule sortedEntries_stable)
  show "map fst (Object_entries gf) = rev (remdups (rev tags))"
    if "\<forall>g \<in> set tags. arrayIndex g = None"
  proof -
    have "set (map fst gf) = set tags" by (simp add: keys)
    with that have "Object_entries gf = gf" by (intro Object_entries_plain) simp
    then show ?thesis by (simp add: keys)
  qed
  show "\<exists>rs. generateRecommendations gf = Some rs \<and>
              filter (\<lambda>r. genre r = ''Finance'' \<or> genre r = ''Fiction'') rs = [fin_1, fin_2, fic_1]"
    if "count_list tags ''fiction'' < count_list tags ''finance''"
    unfolding generateRecommendations_def
    using topGenres_shape [OF keys plain] topGenres_finance_first [OF keys counts that]
    by (rule recommendFor_order)
  show "\<exists>rs. generateRecommendations gf = Some rs \<and> length rs \<le> 8"
    unfolding generateRecommendations_def
    using recommendFor_length [OF topGenres_shape [OF keys plain]] by auto
qed

lemma analyze_tie:
  "analyzeGenrePreferences [taggedBook [''fiction''], taggedBook [''finance'']]
     = [(''fiction'', Count 1), (''finance'', Count 1)]"
  by (simp add: analyzeGenrePreferences_def tagsOf_def taggedBook_def objectPrototypeKeys_def)

lemma topGenres_tie: "topGenres [(''fiction'', 1), (''finance'', 1)] = [''fiction'', ''finance'']"
proof -
  have "Object_entries [(''fiction'', 1::nat), (''finance'', 1)] = [(''fiction'', 1), (''finance'', 1)]"
    by (intro Object_entries_plain) (simp add: arrayIndex_examples)
  then show ?thesis by (simp add: topGenres_def sortedEntries_def)
qed

text \<open>
  Claim C7, as the source has it. With one book tagged fiction followed by one tagged
  finance the counts tie; the catalog declares finance before fiction, yet the top genres are
  fiction, then finance, and the fiction entry leads the result.
\<close>

theorem recommendations_tie_counterexample:
  "analyzeGenrePreferences [taggedBook [''fiction''], taggedBook [''finance'']]
     = [(''fiction'', Count 1), (''finance'', Count 1)] \<and>
   numericTally [(''fiction'', Count 1), (''finance'', Count 1)]
     = Some [(''fiction'', 1), (''finance'', 1)] \<and>
   map fst bookDatabase = [''finance'', ''business'', ''fiction'', ''technical''] \<and>
   topGenres [(''fiction'', 1), (''finance'', 1)] = [''fiction'', ''finance''] \<and>
   generateRecommendations [(''fiction'', 1), (''finance'', 1)]
     = Some [fic_1, fin_1, fin_2, bus_1, bus_2, tech_1]"
proof -
  have "recommendFor [''fiction'', ''finance''] = Some [fic_1, fin_1, fin_2, bus_1, bus_2, tech_1]"
    by (subst recommendFor_all_six) (simp_all add: objectPrototypeKeys_def genreBooks_simps)
  then have g: "generateRecommendations [(''fiction'', 1), (''finance'', 1)]
                  = Some [fic_1, fin_1, fin_2, bus_1, bus_2, tech_1]"
    unfolding generateRecommendations_def topGenres_tie .
  have k: "map fst bookDatabase = [''finance'', ''business'', ''fiction'', ''technical'']"
    by (simp add: bookDatabase_def)
  have n: "numericTally [(''fiction'', Count 1), (''finance'', Count 1)]
     = Some [(''fiction'', 1), (''finance'', 1)]"
    by simp
  from analyze_tie n k topGenres_tie g show ?thesis by (intro conjI)
qed

text \<open>
  A tag that names a property of \<open>Object.prototype\<close> leaves a text in the tally, not a
  count, and as a top genre it makes the catalog lookup fail.
\<close>

lemma analyze_inherited:
  "analyzeGenrePreferences [taggedBook [''constructor'', ''finance'', ''constructor'', ''__proto__'']]
     = [(''constructor'', InheritedText 2), (''finance'', Count 1)]"
  "numericTally [(''constructor'', InheritedText 2), (''finance'', Count 1)] = None"
  "recommendFor [''constructor''] = None"
  by (simp_all add: analyzeGenrePreferences_def tagsOf_def taggedBook_def objectPrototypeKeys_def
        recommendFor_def)

text \<open>
  Claim C7, amended. For a library none of whose genre tags names a property of
  \<open>Object.prototype\<close> (\<open>constructor\<close>, \<open>toString\<close>, \<open>valueOf\<close>, \<open>hasOwnProperty\<close>,
  \<open>__proto__\<close> and the other keys of \<open>objectPrototypeKeys\<close>): the tally holds numbers, for
  each genre the number of its occurrences in the library's tags; the top genres are the
  first three keys of the tally's entries sorted by descending count; two entries with equal
  counts keep the order they have in \<open>Object.entries\<close> of the tally, which, when no tag is
  an array index, is the order in which the genres first occur in the library, not the order
  of the catalog; whenever finance occurs more often than fiction (as with 5 and 1), the
  finance entries of the catalog come before its fiction entry in the result; and the result
  has at most 8 entries.
\<close>

theorem recommendations_selection:
  assumes "\<forall>g \<in> set (concat (map tagsOf bs)). g \<notin> set objectPrototypeKeys"
  shows "\<exists>gf. numericTally (analyzeGenrePreferences bs) = Some gf \<and>
         topGenres gf = map fst (take 3 (sortedEntries gf)) \<and>
         mset (sortedEntries gf) = mset gf \<and>
         (\<forall>g. map_of gf g = (if g \<in> set (concat (map tagsOf bs))
                               then Some (count_list (concat (map tagsOf bs)) g) else None)) \<and>
         sorted_wrt (\<lambda>a b. snd b \<le> snd a) (sortedEntries gf) \<and>
         (\<forall>a b. snd a = snd b \<longrightarrow>
            filter (\<lambda>x. x = a \<or> x = b) (sortedEntries gf)
              = filter (\<lambda>x. x = a \<or> x = b) (Object_entries gf)) \<and>
         ((\<forall>g \<in> set (concat (map tagsOf bs)). arrayIndex g = None) \<longrightarrow>
            map fst (Object_entries gf) = rev (remdups (rev (concat (map tagsOf bs))))) \<and>
         (count_list (concat (map tagsOf bs)) ''fiction'' < count_list (concat (map tagsOf bs)) ''finance'' \<longrightarrow>
            (\<exists>rs. generateRecommendations gf = Some rs \<and>
                   filter (\<lambda>r. genre r = ''Finance'' \<or> genre r = ''Fiction'') rs
                     = [fin_1, fin_2, fic_1])) \<and>
         (\<exists>rs. generateRecommendations gf = Some rs \<and> length rs \<le> 8)"
proof -
  from analyze_entries [OF assms] obtain gf where
    n: "numericTally (analyzeGenrePreferences bs) = Some gf"
    and keys: "map fst gf = rev (remdups (rev (concat (map tagsOf bs))))"
    and counts: "\<forall>g. map_of gf g = (if g \<in> set (concat (map tagsOf bs))
                        then Some (count_list (concat (map tagsOf bs)) g) else None)"
    by blast
  show ?thesis
    by (rule exI [of _ gf], rule conjI [OF n selection_of_tally [OF keys counts assms]])
qed

lemma analyze_financeLibrary:
  "numericTally (analyzeGenrePreferences financeLibrary) = Some [(''fiction'', 1), (''finance'', 5)]"
  by (simp add: analyzeGenrePreferences_def tagsOf_def taggedBook_def objectPrototypeKeys_def
        financeLibrary_def numeral_eq_Suc)

theorem recommendations_selection_witness:
  "numericTally (analyzeGenrePreferences financeLibrary) = Some [(''fiction'', 1), (''finance'', 5)] \<and>
   topGenres [(''fiction'', 1), (''finance'', 5)]
     = map fst (take 3 (sortedEntries [(''fiction'', 1), (''finance'', 5)])) \<and>
   map fst (Object_entries [(''fiction'', 1::nat), (''finance'', 5)]) = [''fiction'', ''finance''] \<and>
   (\<exists>rs. generateRecommendations [(''fiction'', 1), (''finance'', 5)] = Some rs \<and>
          filter (\<lambda>r. genre r = ''Finance'' \<or> genre r = ''Fiction'') rs = [fin_1, fin_2, fic_1] \<and>
          length rs \<le> 8)"
proof -
  let ?tags = "concat (map tagsOf financeLibrary)"
  let ?gf = "[(''fiction'', 1::nat), (''finance'', 5)]"
  have tags: "?tags = [''fiction'', ''finance'', ''finance'', ''finance'', ''finance'', ''finance'']"
    by (simp add: financeLibrary_def tagsOf_def taggedBook_def numeral_eq_Suc)
  have h0: "\<forall>g \<in> set ?tags. g \<notin> set objectPrototypeKeys"
    unfolding tags by (simp add: objectPrototypeKeys_def)
  have h1: "\<forall>g \<in> set ?tags. arrayIndex g = None"
    unfolding tags by (simp add: arrayIndex_examples)
  have h2: "count_list ?tags ''fiction'' < count_list ?tags ''finance''"
    unfolding tags by simp
  have first: "rev (remdups (rev ?tags)) = [''fiction'', ''finance'']"
    unfolding tags by simp
  from recommendations_selection [OF h0] obtain gf where
    n: "numericTally (analyzeGenrePreferences financeLibrary) = Some gf"
    and w: "topGenres gf = map fst (take 3 (sortedEntries gf)) \<and>
         mset (sortedEntries gf) = mset gf \<and>
         (\<forall>g. map_of gf g = (if g \<in> set ?tags then Some (count_list ?tags g) else None)) \<and>
         sorted_wrt (\<lambda>a b. snd b \<le> snd a) (sortedEntries gf) \<and>
         (\<forall>a b. snd a = snd b \<longrightarrow>
            filter (\<lambda>x. x = a \<or> x = b) (sortedEntries gf)
              = filter (\<lambda>x. x = a \<or> x = b) (Object_entries gf)) \<and>
         ((\<forall>g \<in> set ?tags. arrayIndex g = None) \<longrightarrow>
            map fst (Object_entries gf) = rev (remdups (rev ?tags))) \<and>
         (count_list ?tags ''fiction'' < count_list ?tags ''finance'' \<longrightarrow>
            (\<exists>rs. generateRecommendations gf = Some rs \<and>
                   filter (\<lambda>r. genre r = ''Finance'' \<or> genre r = ''Fiction'') rs
                     = [fin_1, fin_2, fic_1])) \<and>
         (\<exists>rs. generateRecommendations gf = Some rs \<and> length rs \<le> 8)"
    by blast
  from n analyze_financeLibrary have gf: "gf = ?gf" by simp
  note w' = w [unfolded gf]
  note rest = w' [THEN conjunct2, THEN conjunct2, THEN conjunct2, THEN conjunct2, THEN conjunct2]
  have keys: "map fst (Object_entries ?gf) = [''fiction'', ''finance'']"
    using mp [OF rest [THEN conjunct1] h1] first by (rule trans)
  from mp [OF rest [THEN conjunct2, THEN conjunct1] h2] rest [THEN conjunct2, THEN conjunct2]
  have "\<exists>rs. generateRecommendations ?gf = Some rs \<and>
          filter (\<lambda>r. genre r = ''Finance'' \<or> genre r = ''Fiction'') rs = [fin_1, fin_2, fic_1] \<and>
          length rs \<le> 8"
    by (elim exE conjE) simp
  with analyze_financeLibrary w' [THEN conjunct1] keys show ?thesis by (intro conjI)
qed

end
